theory Spec2Isabelle
  imports Main "HOL-Library.Sublist"
begin

section \<open>Data model (models.py)\<close>

text \<open>
  The web backend keeps three process-wide registries: sessions
  (\<^verbatim>\<open>session_manager.py\<close>), tasks with their asyncio handles
  (\<^verbatim>\<open>task_manager.py\<close>) and the WebSocket connections of every session
  (\<^verbatim>\<open>websocket_manager.py\<close>). Objects are identified with their identifier:
  a dictionary from identifiers to objects is a map to records, and a mutation of an
  object is an update of the map at its identifier. Times are natural numbers.
\<close>

datatype task_status = PENDING | RUNNING | COMPLETED | FAILED | CANCELLED

datatype session_status = ACTIVE | IDLE | TERMINATED

text \<open>
  Python exceptions that occur in the backend. \<open>AgentError msg\<close> is an exception
  raised by the agent run, with \<open>str(e) = msg\<close>; \<open>TypeError msg\<close> is raised
  by the interpreter while tool arguments are inspected; \<open>SendError\<close> is whatever
  \<^verbatim>\<open>send_json\<close> raises on a dead connection. \<open>CancelledError\<close> and
  \<open>TimeoutError\<close> are asyncio's; \<open>CancelledError\<close> is not a subclass of
  \<^verbatim>\<open>Exception\<close>.
\<close>

datatype py_exn =
    AgentError string
  | TypeError string
  | ValueError string
  | KeyError string
  | SendError
  | CancelledError
  | TimeoutError

text \<open>A text between single quotes.\<close>

definition quoted :: "string \<Rightarrow> string" where
  "quoted s = [CHR 0x27] @ s @ [CHR 0x27]"

text \<open>\<^verbatim>\<open>str(e)\<close>; that of a \<^verbatim>\<open>KeyError\<close> is the \<^verbatim>\<open>repr\<close> of the key.\<close>

fun str_exn :: "py_exn \<Rightarrow> string" where
  "str_exn (AgentError m) = m"
| "str_exn (TypeError m) = m"
| "str_exn (ValueError m) = m"
| "str_exn (KeyError k) = quoted k"
| "str_exn SendError = []"
| "str_exn CancelledError = []"
| "str_exn TimeoutError = []"

text \<open>Whether \<^verbatim>\<open>except Exception\<close> catches the exception.\<close>

fun is_Exception :: "py_exn \<Rightarrow> bool" where
  "is_Exception CancelledError = False"
| "is_Exception _ = True"

text \<open>
  A log entry of a task: \<^verbatim>\<open>{"type": "tool_executed", "tool", "timestamp"}\<close> or
  \<^verbatim>\<open>{"type": "error", "error", "traceback", "timestamp"}\<close>; the error text and the
  traceback are those of the exception the entry carries.
\<close>

datatype log_entry =
    ToolExecuted string nat
  | ErrorLog py_exn nat

text \<open>
  The metadata dictionary of a task. It is \<^verbatim>\<open>{}\<close> until a run succeeds; the code
  reads it with \<^verbatim>\<open>.get\<close> and truth tests only, for which the empty dictionary and
  the record below with every field empty are the same. \<open>tool_commands\<close> is a
  dictionary in insertion order; \<open>tool_outputs\<close> has the keys \<open>0, 1, \<dots>\<close> in order
  and is kept as the list of its values.
\<close>

record metadata =
  initial_thinking :: "string option"
  final_response :: "string option"
  tool_commands :: "(string \<times> string) list"
  tool_outputs :: "string list"

definition empty_metadata :: metadata where
  "empty_metadata =
     \<lparr>initial_thinking = None, final_response = None, tool_commands = [], tool_outputs = []\<rparr>"

record task =
  task_id :: string
  session_id :: string
  message :: string
  status :: task_status
  created_at :: nat
  started_at :: "nat option"
  completed_at :: "nat option"
  result :: "string option"
  error :: "string option"
  logs :: "log_entry list"
  tools_used :: "string list"
  token_usage :: "(string \<times> int) list"
  metadata :: metadata

record chat_message =
  msg_id :: string
  role :: string
  content :: string
  timestamp :: nat
  msg_tools_used :: "string list"
  msg_task_id :: "string option"

text \<open>
  The JSON-shaped payloads sent to observers: \<^verbatim>\<open>connected\<close>,
  \<^verbatim>\<open>task_update\<close> and \<^verbatim>\<open>task_created\<close> (with \<^verbatim>\<open>task.to_dict()\<close>, a copy of
  the task at the time of sending), and \<^verbatim>\<open>message_added\<close> (the flag is
  \<^verbatim>\<open>is_thinking\<close>).
\<close>

datatype event =
    Connected string
  | TaskUpdate task
  | TaskCreated task
  | MessageAdded chat_message bool

section \<open>Observers (websocket_manager.py)\<close>

text \<open>
  A WebSocket is an object of the web framework; the model knows it by a number.
  \<open>sockets\<close> is the state of all of them: whether the connection is dead (then
  \<^verbatim>\<open>send_json\<close> raises) and what each has been sent so far.
\<close>

type_synonym websocket = nat

record sockets =
  dead :: "websocket \<Rightarrow> bool"
  received :: "websocket \<Rightarrow> event list"

definition send_json :: "websocket \<Rightarrow> event \<Rightarrow> sockets \<Rightarrow> py_exn + sockets" where
  "send_json ws data k =
     (if dead k ws then Inl SendError
      else Inr (k\<lparr>received := (received k)(ws := received k ws @ [data])\<rparr>))"

text \<open>\<^verbatim>\<open>_send_to_websocket\<close>: \<^verbatim>\<open>try: await websocket.send_json(data)\<close>,
  \<^verbatim>\<open>except Exception: pass\<close>.\<close>

definition send_to_websocket :: "websocket \<Rightarrow> event \<Rightarrow> sockets \<Rightarrow> py_exn + sockets" where
  "send_to_websocket ws data k =
     (case send_json ws data k of
        Inr k' \<Rightarrow> Inr k'
      | Inl e \<Rightarrow> (if is_Exception e then Inr k else Inl e))"

text \<open>
  \<^verbatim>\<open>asyncio.gather(*tasks, return_exceptions=True)\<close>: every coroutine runs; one that
  raises contributes its exception to the list of results and the others go on. The
  coroutines are run in the order of the list; each changes the state of its own
  socket only.
\<close>

fun gather_return_exceptions ::
  "(sockets \<Rightarrow> py_exn + sockets) list \<Rightarrow> sockets \<Rightarrow> (py_exn option) list \<times> sockets" where
  "gather_return_exceptions [] k = ([], k)"
| "gather_return_exceptions (c # cs) k =
     (case c k of
        Inr k' \<Rightarrow> (let (rs, k'') = gather_return_exceptions cs k' in (None # rs, k''))
      | Inl e \<Rightarrow> (let (rs, k'') = gather_return_exceptions cs k in (Some e # rs, k'')))"

text \<open>\<open>connections\<close> maps a session id to the list of its WebSockets.\<close>

type_synonym connections = "string \<rightharpoonup> websocket list"

text \<open>\<^verbatim>\<open>broadcast_to_session\<close>; the result is the list gathered (empty when nothing
  was sent) and the new state of the sockets.\<close>

definition broadcast_to_session ::
  "connections \<Rightarrow> string \<Rightarrow> event \<Rightarrow> sockets \<Rightarrow> (py_exn option) list \<times> sockets" where
  "broadcast_to_session conns sid data k =
     (case conns sid of
        None \<Rightarrow> ([], k)
      | Some wss \<Rightarrow>
          (let sends = map (\<lambda>ws. send_to_websocket ws data) wss
           in if sends \<noteq> [] then gather_return_exceptions sends k else ([], k)))"

text \<open>The observers registered for a session; none when it has no bucket.\<close>

definition observers :: "connections \<Rightarrow> string \<Rightarrow> websocket list" where
  "observers conns sid = (case conns sid of None \<Rightarrow> [] | Some wss \<Rightarrow> wss)"

text \<open>\<^verbatim>\<open>connect\<close>, once the WebSocket is accepted: register under the session's
  bucket, then acknowledge.\<close>

definition connect :: "websocket \<Rightarrow> string \<Rightarrow> connections \<times> sockets \<Rightarrow> connections \<times> sockets" where
  "connect ws sid ck =
     (let conns = fst ck; k = snd ck;
          conns1 = (if conns sid = None then conns(sid \<mapsto> []) else conns);
          conns2 = (case conns1 sid of None \<Rightarrow> conns1 | Some wss \<Rightarrow> conns1(sid \<mapsto> wss @ [ws]))
      in (conns2, (case send_to_websocket ws (Connected sid) k of Inr k' \<Rightarrow> k' | Inl _ \<Rightarrow> k)))"

text \<open>
  \<^verbatim>\<open>disconnect\<close>: \<^verbatim>\<open>list.remove\<close> raises \<^verbatim>\<open>ValueError\<close> when the element is
  not in the list and removes its first occurrence otherwise; an emptied bucket is
  deleted.
\<close>

definition list_remove :: "'a \<Rightarrow> 'a list \<Rightarrow> py_exn + 'a list" where
  "list_remove x xs =
     (if x \<in> set xs then Inr (remove1 x xs) else Inl (ValueError ''list.remove(x): x not in list''))"

definition disconnect :: "websocket \<Rightarrow> string \<Rightarrow> connections \<Rightarrow> py_exn + connections" where
  "disconnect ws sid conns =
     (case conns sid of
        None \<Rightarrow> Inr conns
      | Some wss \<Rightarrow>
          (case list_remove ws wss of
             Inl e \<Rightarrow> Inl e
           | Inr wss' \<Rightarrow> Inr (if wss' = [] then conns(sid := None) else conns(sid \<mapsto> wss'))))"

section \<open>Sessions (session_manager.py)\<close>

text \<open>
  An agent is opaque: all the backend does with it is \<^verbatim>\<open>Runner.run(agent, input)\<close>.
  The types of runs come with the task manager below; a session is polymorphic in it.
\<close>

record 'a session =
  sess_id :: string
  name :: string
  agent_type :: string
  model :: string
  sess_status :: session_status
  sess_created_at :: nat
  updated_at :: nat
  agent :: 'a
  messages :: "chat_message list"

type_synonym 'a sessions = "string \<rightharpoonup> 'a session"

definition get_session :: "'a sessions \<Rightarrow> string \<Rightarrow> 'a session option" where
  "get_session ss sid = ss sid"

text \<open>\<^verbatim>\<open>delete_session\<close>: the session is marked \<^verbatim>\<open>terminated\<close>, then its entry is
  deleted; the result says whether there was one.\<close>

definition delete_session :: "string \<Rightarrow> 'a sessions \<Rightarrow> bool \<times> 'a sessions" where
  "delete_session sid ss =
     (case ss sid of
        Some session \<Rightarrow>
          (let ss1 = ss(sid \<mapsto> session\<lparr>sess_status := TERMINATED\<rparr>)
           in (True, ss1(sid := None)))
      | None \<Rightarrow> (False, ss))"

section \<open>The agent run and what is extracted from it (task_manager.py)\<close>

text \<open>
  What the model takes from the Python runtime and its libraries: the successive
  readings of \<^verbatim>\<open>datetime.utcnow()\<close> and of \<^verbatim>\<open>uuid.uuid4()\<close> (the state counts
  how many have been taken), \<^verbatim>\<open>json.loads\<close> (\<open>None\<close> when it raises),
  \<^verbatim>\<open>str\<close> of a parsed value, the order in which \<^verbatim>\<open>list(set(xs))\<close> lists the
  elements of \<open>xs\<close>, and the formatting of a timeout.
\<close>

datatype json =
    JNull
  | JBool bool
  | JNum int
  | JStr string
  | JArr "json list"
  | JObj "(string \<times> json) list"

record env =
  utcnow_at :: "nat \<Rightarrow> nat"
  uuid4_at :: "nat \<Rightarrow> string"
  json_loads :: "string \<Rightarrow> json option"
  py_str :: "json \<Rightarrow> string"
  set_order :: "string list \<Rightarrow> string list"
  float_str :: "nat \<Rightarrow> string"

text \<open>Python's truth value of a parsed argument.\<close>

fun truthy :: "json \<Rightarrow> bool" where
  "truthy JNull = False"
| "truthy (JBool b) = b"
| "truthy (JNum n) = (n \<noteq> 0)"
| "truthy (JStr s) = (s \<noteq> [])"
| "truthy (JArr xs) = (xs \<noteq> [])"
| "truthy (JObj kvs) = (kvs \<noteq> [])"

text \<open>\<^verbatim>\<open>sub in s\<close> on strings.\<close>

fun str_contains :: "string \<Rightarrow> string \<Rightarrow> bool" where
  "str_contains sub [] = (sub = [])"
| "str_contains sub (c # cs) = (prefix sub (c # cs) \<or> str_contains sub cs)"

text \<open>
  \<^verbatim>\<open>key in v\<close> and \<^verbatim>\<open>v[key]\<close> for a string key, by the type of \<open>v\<close>, with the
  texts of the \<^verbatim>\<open>TypeError\<close> as Python 3.11 and later give them. A number is an
  \<^verbatim>\<open>int\<close>.
\<close>

fun py_in :: "string \<Rightarrow> json \<Rightarrow> py_exn + bool" where
  "py_in key (JObj kvs) = Inr (key \<in> set (map fst kvs))"
| "py_in key (JStr s) = Inr (str_contains key s)"
| "py_in key (JArr xs) = Inr (JStr key \<in> set xs)"
| "py_in key (JNum n) = Inl (TypeError (''argument of type '' @ quoted ''int'' @ '' is not iterable''))"
| "py_in key (JBool b) = Inl (TypeError (''argument of type '' @ quoted ''bool'' @ '' is not iterable''))"
| "py_in key JNull = Inl (TypeError (''argument of type '' @ quoted ''NoneType'' @ '' is not iterable''))"

fun py_getitem :: "json \<Rightarrow> string \<Rightarrow> py_exn + json" where
  "py_getitem (JObj kvs) key =
     (case map_of kvs key of Some v \<Rightarrow> Inr v | None \<Rightarrow> Inl (KeyError key))"
| "py_getitem (JStr s) key = Inl (TypeError (''string indices must be integers, not '' @ quoted ''str''))"
| "py_getitem (JArr xs) key = Inl (TypeError ''list indices must be integers or slices, not str'')"
| "py_getitem (JNum n) key = Inl (TypeError (quoted ''int'' @ '' object is not subscriptable''))"
| "py_getitem (JBool b) key = Inl (TypeError (quoted ''bool'' @ '' object is not subscriptable''))"
| "py_getitem JNull key = Inl (TypeError (quoted ''NoneType'' @ '' object is not subscriptable''))"

text \<open>\<^verbatim>\<open>str.lower()\<close> on ASCII letters.\<close>

definition lower_char :: "char \<Rightarrow> char" where
  "lower_char c =
     (if of_char c \<ge> (65::nat) \<and> of_char c \<le> (90::nat) then char_of (of_char c + (32::nat)) else c)"

definition lower :: "string \<Rightarrow> string" where
  "lower s = map lower_char s"

text \<open>\<^verbatim>\<open>sep.join(xs)\<close>.\<close>

fun join :: "string \<Rightarrow> string list \<Rightarrow> string" where
  "join sep [] = []"
| "join sep [x] = x"
| "join sep (x # y # ys) = x @ sep @ join sep (y # ys)"

text \<open>
  \<^verbatim>\<open>list(set(xs))\<close>: the elements of \<open>xs\<close>, each once, in the order of the set,
  which is the runtime's to choose. The order comes from the environment; an answer
  of the environment that is not a listing of the set without repetition is replaced
  by the order of first occurrence.
\<close>

definition list_of_set :: "env \<Rightarrow> string list \<Rightarrow> string list" where
  "list_of_set env xs =
     (let ys = set_order env xs
      in if distinct ys \<and> set ys = set xs then ys else remdups xs)"

text \<open>
  The items of a run are loosely typed objects, read with \<^verbatim>\<open>hasattr\<close>. An
  attribute that an object does not have is \<open>None\<close>; an attribute whose value is
  \<^verbatim>\<open>None\<close> is \<open>Some []\<close> where the code only tests its truth. \<open>item_type\<close> is
  \<^verbatim>\<open>str(item.type)\<close> and \<open>item_output\<close> is \<^verbatim>\<open>str(item.output)\<close>. The first
  content item of a message yields its \<^verbatim>\<open>text\<close>, else its \<^verbatim>\<open>content\<close>, else
  its \<^verbatim>\<open>str\<close>.
\<close>

record tool_call =
  function_name :: string
  function_arguments :: string

datatype content_item = WithText string | WithContent string | Plain string

record raw_item =
  tool_calls :: "tool_call list option"
  raw_name :: "string option"
  raw_content :: "content_item list option"

record item =
  item_type :: "string option"
  tool_name :: "string option"
  raw_item :: "raw_item option"
  item_output :: "string option"

record usage =
  prompt_tokens :: int
  completion_tokens :: int
  total_tokens :: int

record run_result =
  new_items :: "item list"
  raw_responses :: "usage option list"

text \<open>The local variables of the extraction loop.\<close>

record extraction =
  initial_message :: string
  final_message :: string
  tools_list :: "string list"
  commands :: "(string \<times> string) list"
  outputs :: "string list"

definition empty_extraction :: extraction where
  "empty_extraction =
     \<lparr>initial_message = [], final_message = [], tools_list = [], commands = [], outputs = []\<rparr>"

text \<open>Assignment \<^verbatim>\<open>d[k] = v\<close> to a dictionary in insertion order.\<close>

fun dict_set :: "string \<Rightarrow> string \<Rightarrow> (string \<times> string) list \<Rightarrow> (string \<times> string) list" where
  "dict_set k v [] = [(k, v)]"
| "dict_set k v ((k', v') # kvs) = (if k = k' then (k, v) # kvs else (k', v') # dict_set k v kvs)"

text \<open>The name and the arguments found in a tool-call item, tried in the order of
  the \<^verbatim>\<open>if\<close>/\<^verbatim>\<open>elif\<close> chain.\<close>

definition tool_name_and_args :: "env \<Rightarrow> item \<Rightarrow> string option \<times> json option" where
  "tool_name_and_args env it =
     (if tool_name it \<noteq> None \<and> tool_name it \<noteq> Some [] then (tool_name it, None)
      else if raw_item it \<noteq> None \<and> Option.bind (raw_item it) tool_calls \<noteq> None then
        (case Option.bind (raw_item it) tool_calls of
           Some (tc # _) \<Rightarrow>
             (Some (function_name tc),
              Some (case json_loads env (function_arguments tc) of
                      Some v \<Rightarrow> v
                    | None \<Rightarrow> JStr (function_arguments tc)))
         | _ \<Rightarrow> (None, None))
      else if raw_item it \<noteq> None \<and> Option.bind (raw_item it) raw_name \<noteq> None then
        (Option.bind (raw_item it) raw_name, None)
      else (None, None))"

text \<open>The text shown for a tool call; inspecting the arguments can raise.\<close>

definition command_text :: "env \<Rightarrow> string \<Rightarrow> json option \<Rightarrow> py_exn + string" where
  "command_text env tname targs =
     (case targs of
        None \<Rightarrow> Inr (''Executing '' @ tname)
      | Some a \<Rightarrow>
          if truthy a then
            (if tname = ''generic_linux_command'' then
               (case py_in ''command'' a of
                  Inl e \<Rightarrow> Inl e
                | Inr True \<Rightarrow>
                    (case py_getitem a ''command'' of
                       Inl e \<Rightarrow> Inl e
                     | Inr v \<Rightarrow> Inr (''Executing Command: '' @ py_str env v))
                | Inr False \<Rightarrow> Inr (''Executing '' @ tname @ '': '' @ take 100 (py_str env a)))
             else Inr (''Executing '' @ tname @ '': '' @ take 100 (py_str env a)))
          else Inr (''Executing '' @ tname))"

definition on_tool_call :: "env \<Rightarrow> item \<Rightarrow> extraction \<Rightarrow> py_exn + extraction" where
  "on_tool_call env it x =
     (case tool_name_and_args env it of
        (Some tname, targs) \<Rightarrow>
          if tname \<noteq> [] then
            (case command_text env tname targs of
               Inl e \<Rightarrow> Inl e
             | Inr txt \<Rightarrow>
                 Inr (x\<lparr>tools_list := tools_list x @ [tname],
                        commands := dict_set tname txt (commands x)\<rparr>))
          else Inr x
      | (None, targs) \<Rightarrow> Inr x)"

fun text_of :: "content_item \<Rightarrow> string" where
  "text_of (WithText s) = s"
| "text_of (WithContent s) = s"
| "text_of (Plain s) = s"

definition on_message :: "item \<Rightarrow> extraction \<Rightarrow> extraction" where
  "on_message it x =
     (case Option.bind (raw_item it) raw_content of
        Some (content_item # _) \<Rightarrow>
          (let message_text = text_of content_item
           in if initial_message x = [] \<and> message_text \<noteq> [] then
                x\<lparr>initial_message := message_text\<rparr>
              else if message_text \<noteq> [] \<and> message_text \<noteq> initial_message x then
                x\<lparr>final_message := message_text\<rparr>
              else x)
      | _ \<Rightarrow> x)"

definition on_tool_output :: "item \<Rightarrow> extraction \<Rightarrow> extraction" where
  "on_tool_output it x =
     (case item_output it of
        Some out \<Rightarrow> x\<lparr>outputs := outputs x @ [take 2000 out]\<rparr>
      | None \<Rightarrow> x)"

text \<open>One turn of the loop over \<^verbatim>\<open>result.new_items\<close>, with the tests on the
  lower-cased type in the order of the source.\<close>

definition process_item :: "env \<Rightarrow> item \<Rightarrow> extraction \<Rightarrow> py_exn + extraction" where
  "process_item env it x =
     (case item_type it of
        None \<Rightarrow> Inr x
      | Some ty \<Rightarrow>
          (let item_type_str = lower ty
           in if str_contains ''tool_call'' item_type_str then on_tool_call env it x
              else if str_contains ''message_output'' item_type_str
                      \<or> str_contains ''message'' item_type_str then Inr (on_message it x)
              else if str_contains ''tool_call_output'' item_type_str then Inr (on_tool_output it x)
              else Inr x))"

fun extract_items :: "env \<Rightarrow> item list \<Rightarrow> extraction \<Rightarrow> py_exn + extraction" where
  "extract_items env [] x = Inr x"
| "extract_items env (it # its) x =
     (case process_item env it x of
        Inl e \<Rightarrow> Inl e
      | Inr x' \<Rightarrow> extract_items env its x')"

text \<open>The primary result of the task, from the tables extracted and the tools
  without duplicates.\<close>

definition task_result :: "extraction \<Rightarrow> string list \<Rightarrow> string" where
  "task_result x tools =
     (if outputs x \<noteq> [] then join [CHR 0x0A, CHR 0x0A] (outputs x)
      else if tools \<noteq> [] then ''Executed tools: '' @ join '', '' tools
      else
        (let assistant_message = (if final_message x \<noteq> [] then final_message x else initial_message x)
         in if assistant_message \<noteq> [] then assistant_message else ''Task completed''))"

definition metadata_of :: "extraction \<Rightarrow> metadata" where
  "metadata_of x =
     \<lparr>initial_thinking = (if initial_message x \<noteq> [] then Some (initial_message x) else None),
      final_response = (if final_message x \<noteq> [] then Some (final_message x) else None),
      tool_commands = commands x,
      tool_outputs = outputs x\<rparr>"

text \<open>The token counters summed over the responses that carry a usage.\<close>

fun sum_usage :: "usage option list \<Rightarrow> int \<times> int \<times> int \<Rightarrow> int \<times> int \<times> int" where
  "sum_usage [] acc = acc"
| "sum_usage (None # rs) acc = sum_usage rs acc"
| "sum_usage (Some u # rs) (p, c, t) =
     sum_usage rs (p + prompt_tokens u, c + completion_tokens u, t + total_tokens u)"

section \<open>Tasks and their execution (task_manager.py)\<close>

text \<open>
  \<^verbatim>\<open>Runner.run(agent, input)\<close> is external. All the model knows of a run is how long
  it takes and how it ends: it returns a result, or it raises an exception \<open>e\<close> of
  class \<^verbatim>\<open>Exception\<close> with \<open>str(e)\<close> the given text. An agent maps the input
  to the run it makes.
\<close>

datatype outcome = Returns run_result | Raises string

record agent_run =
  duration :: nat
  outcome :: outcome

type_synonym agent = "string \<Rightarrow> agent_run"

text \<open>
  The asyncio task that \<^verbatim>\<open>create_task\<close> makes for \<^verbatim>\<open>_execute_task(task, agent)\<close>.
  The coroutine has two points where it can rest: before its first step, and at
  \<^verbatim>\<open>await Runner.run(...)\<close>. Broadcasts are taken as steps that are not interrupted.
  \<open>Finished\<close> is a handle whose coroutine is over but which is still in
  \<^verbatim>\<open>running_tasks\<close>: that of a task cancelled before its first step, whose body and
  \<^verbatim>\<open>finally\<close> block never ran. \<open>run\<close> is the run that \<^verbatim>\<open>Runner.run\<close> makes for the
  agent and the message of the task; \<open>duration\<close> counts from the moment a caller starts
  to wait.
\<close>

datatype coro_state = NotStarted | AtRun | Finished

record handle =
  coro :: coro_state
  run :: agent_run

text \<open>
  The state of the process. \<open>connections\<close> is the module-level
  \<^verbatim>\<open>websocket_manager\<close> that \<^verbatim>\<open>task_manager.py\<close> imports; \<open>main_connections\<close> is the
  \<^verbatim>\<open>WebSocketManager()\<close> that \<^verbatim>\<open>main.py\<close> makes for itself. \<open>reads\<close> and
  \<open>draws\<close> count the calls of \<^verbatim>\<open>utcnow\<close> and \<^verbatim>\<open>uuid4\<close> so far.
\<close>

record world =
  sessions :: "agent sessions"
  tasks :: "string \<rightharpoonup> task"
  running_tasks :: "string \<rightharpoonup> handle"
  connections :: connections
  main_connections :: connections
  sockets :: sockets
  reads :: nat
  draws :: nat

definition utcnow :: "env \<Rightarrow> world \<Rightarrow> nat \<times> world" where
  "utcnow env w = (utcnow_at env (reads w), w\<lparr>reads := Suc (reads w)\<rparr>)"

definition uuid4 :: "env \<Rightarrow> world \<Rightarrow> string \<times> world" where
  "uuid4 env w = (uuid4_at env (draws w), w\<lparr>draws := Suc (draws w)\<rparr>)"

text \<open>A write to the task object with the given id.\<close>

definition modify :: "string \<Rightarrow> (task \<Rightarrow> task) \<Rightarrow> world \<Rightarrow> world" where
  "modify tid f w =
     (case tasks w tid of None \<Rightarrow> w | Some t \<Rightarrow> w\<lparr>tasks := (tasks w)(tid \<mapsto> f t)\<rparr>)"

definition set_coro :: "string \<Rightarrow> coro_state \<Rightarrow> world \<Rightarrow> world" where
  "set_coro tid c w =
     (case running_tasks w tid of
        None \<Rightarrow> w
      | Some h \<Rightarrow> w\<lparr>running_tasks := (running_tasks w)(tid \<mapsto> h\<lparr>coro := c\<rparr>)\<rparr>)"

text \<open>\<^verbatim>\<open>Task(session_id=..., message=...)\<close> with the defaults of the model class.\<close>

definition new_task :: "string \<Rightarrow> string \<Rightarrow> string \<Rightarrow> nat \<Rightarrow> task" where
  "new_task tid sid msg now =
     \<lparr>task_id = tid, session_id = sid, message = msg, status = PENDING, created_at = now,
      started_at = None, completed_at = None, result = None, error = None, logs = [],
      tools_used = [], token_usage = [], metadata = empty_metadata\<rparr>"

text \<open>
  \<^verbatim>\<open>create_task\<close>: the task is stored and \<^verbatim>\<open>asyncio.create_task\<close> schedules the
  coroutine, which does not run before the caller next awaits. Nothing in the
  function suspends: no holder of the lock ever awaits inside it.
\<close>

definition create_task :: "env \<Rightarrow> string \<Rightarrow> string \<Rightarrow> agent \<Rightarrow> world \<Rightarrow> task \<times> world" where
  "create_task env sid msg ag w =
     (case uuid4 env w of (tid, w1) \<Rightarrow>
      case utcnow env w1 of (now, w2) \<Rightarrow>
        (let task = new_task tid sid msg now;
             w3 = w2\<lparr>tasks := (tasks w2)(task_id task \<mapsto> task)\<rparr>;
             asyncio_task = \<lparr>coro = NotStarted, run = ag (message task)\<rparr>;
             w4 = w3\<lparr>running_tasks := (running_tasks w3)(task_id task \<mapsto> asyncio_task)\<rparr>
         in (task, w4)))"

text \<open>\<^verbatim>\<open>_notify_task_update\<close>.\<close>

definition notify_task_update :: "string \<Rightarrow> world \<Rightarrow> world" where
  "notify_task_update tid w =
     (case tasks w tid of
        None \<Rightarrow> w
      | Some t \<Rightarrow>
          w\<lparr>sockets :=
              snd (broadcast_to_session (connections w) (session_id t) (TaskUpdate t) (sockets w))\<rparr>)"

text \<open>
  The first step of \<^verbatim>\<open>_execute_task\<close>, up to \<^verbatim>\<open>await Runner.run(...)\<close>, as it goes
  when no cancellation is delivered while the notification is awaited. (With an
  observer registered the coroutine suspends there as well; a cancellation
  delivered there is not part of the model.)
\<close>

definition execute_begin :: "env \<Rightarrow> string \<Rightarrow> world \<Rightarrow> world" where
  "execute_begin env tid w =
     (let w1 = modify tid (\<lambda>t. t\<lparr>status := RUNNING\<rparr>) w
      in case utcnow env w1 of (now, w2) \<Rightarrow>
           (let w3 = modify tid (\<lambda>t. t\<lparr>started_at := Some now\<rparr>) w2;
                w4 = notify_task_update tid w3
            in set_coro tid AtRun w4))"

text \<open>
  The rest of the \<^verbatim>\<open>try\<close> block, once \<^verbatim>\<open>Runner.run\<close> has returned: the loop over
  the items writes local variables only, so an exception in it leaves the task as it
  was.
\<close>

definition complete_task :: "env \<Rightarrow> string \<Rightarrow> run_result \<Rightarrow> world \<Rightarrow> py_exn + world" where
  "complete_task env tid r w =
     (case extract_items env (new_items r) empty_extraction of
        Inl e \<Rightarrow> Inl e
      | Inr x \<Rightarrow>
          (let tools = list_of_set env (tools_list x);
               w1 = modify tid (\<lambda>t. t\<lparr>result := Some (task_result x tools)\<rparr>) w;
               w2 = modify tid (\<lambda>t. t\<lparr>metadata := metadata_of x\<rparr>) w1;
               w3 = modify tid (\<lambda>t. t\<lparr>status := COMPLETED\<rparr>) w2
           in case utcnow env w3 of (now, w4) \<Rightarrow>
                (let w5 = modify tid (\<lambda>t. t\<lparr>completed_at := Some now\<rparr>) w4;
                     w6 = modify tid (\<lambda>t. t\<lparr>tools_used := tools\<rparr>) w5;
                     stamps = map (\<lambda>i. utcnow_at env (reads w6 + i)) [0..<length tools];
                     w7 = (modify tid (\<lambda>t. t\<lparr>logs := map2 ToolExecuted tools stamps\<rparr>) w6)
                            \<lparr>reads := reads w6 + length tools\<rparr>
                 in Inr
                      (if raw_responses r \<noteq> [] then
                         (case sum_usage (raw_responses r) (0, 0, 0) of
                            (total_prompt_tokens, total_completion_tokens, total_all) \<Rightarrow>
                              if total_all > 0 then
                                modify tid
                                  (\<lambda>t. t\<lparr>token_usage :=
                                           [(''prompt_tokens'', total_prompt_tokens),
                                            (''completion_tokens'', total_completion_tokens),
                                            (''total_tokens'', total_all)]\<rparr>) w7
                              else w7)
                       else w7))))"

text \<open>\<^verbatim>\<open>except asyncio.CancelledError\<close>, before the \<^verbatim>\<open>raise\<close>.\<close>

definition on_cancelled :: "string \<Rightarrow> world \<Rightarrow> world" where
  "on_cancelled tid w =
     (let w1 = modify tid (\<lambda>t. t\<lparr>status := CANCELLED\<rparr>) w
      in modify tid (\<lambda>t. t\<lparr>error := Some ''Task was cancelled''\<rparr>) w1)"

text \<open>\<^verbatim>\<open>except Exception as e\<close>.\<close>

definition on_exception :: "env \<Rightarrow> string \<Rightarrow> py_exn \<Rightarrow> world \<Rightarrow> world" where
  "on_exception env tid e w =
     (let w1 = modify tid (\<lambda>t. t\<lparr>status := FAILED\<rparr>) w;
          w2 = modify tid (\<lambda>t. t\<lparr>error := Some (str_exn e)\<rparr>) w1
      in case utcnow env w2 of (now, w3) \<Rightarrow>
           modify tid (\<lambda>t. t\<lparr>logs := logs t @ [ErrorLog e now]\<rparr>) w3)"

text \<open>The \<^verbatim>\<open>finally\<close> block, as it goes when no cancellation is delivered while its
  notification is awaited.\<close>

definition finalize :: "env \<Rightarrow> string \<Rightarrow> world \<Rightarrow> world" where
  "finalize env tid w =
     (case utcnow env w of (now, w1) \<Rightarrow>
        (let w2 = modify tid (\<lambda>t. t\<lparr>completed_at := Some now\<rparr>) w1;
             w3 = (if running_tasks w2 tid \<noteq> None
                   then w2\<lparr>running_tasks := (running_tasks w2)(tid := None)\<rparr> else w2)
         in notify_task_update tid w3))"

text \<open>
  What resumes the coroutine at \<^verbatim>\<open>await Runner.run(...)\<close>: the result of the run,
  or an exception thrown there, which is the run's own or the \<^verbatim>\<open>CancelledError\<close> of
  a cancellation.
\<close>

datatype resumption = Returned run_result | Thrown py_exn

text \<open>The \<^verbatim>\<open>except\<close> clauses in their order, each followed by \<^verbatim>\<open>finally\<close>. The
  first component is the exception that leaves the coroutine, if any.\<close>

definition except_clauses :: "env \<Rightarrow> string \<Rightarrow> py_exn \<Rightarrow> world \<Rightarrow> py_exn option \<times> world" where
  "except_clauses env tid e w =
     (if e = CancelledError then (Some e, finalize env tid (on_cancelled tid w))
      else if is_Exception e then (None, finalize env tid (on_exception env tid e w))
      else (Some e, finalize env tid w))"

text \<open>\<^verbatim>\<open>_execute_task\<close> from \<^verbatim>\<open>await Runner.run(...)\<close> to its end.\<close>

definition execute_resume :: "env \<Rightarrow> string \<Rightarrow> resumption \<Rightarrow> world \<Rightarrow> py_exn option \<times> world" where
  "execute_resume env tid d w =
     (case d of
        Returned r \<Rightarrow>
          (case complete_task env tid r w of
             Inr w' \<Rightarrow> (None, finalize env tid w')
           | Inl e \<Rightarrow> except_clauses env tid e w)
      | Thrown e \<Rightarrow> except_clauses env tid e w)"

text \<open>
  \<^verbatim>\<open>Task.cancel()\<close> together with its delivery by the event loop, which comes when
  the caller has suspended: nothing for a finished task; a task that has not started
  never runs its body, so neither its \<^verbatim>\<open>except\<close> clauses nor its \<^verbatim>\<open>finally\<close>
  block run and its handle stays in \<^verbatim>\<open>running_tasks\<close>; a task at
  \<^verbatim>\<open>await Runner.run(...)\<close> has \<^verbatim>\<open>CancelledError\<close> thrown there.
\<close>

definition cancel :: "env \<Rightarrow> string \<Rightarrow> world \<Rightarrow> world" where
  "cancel env tid w =
     (case running_tasks w tid of
        None \<Rightarrow> w
      | Some h \<Rightarrow>
          (case coro h of
             Finished \<Rightarrow> w
           | NotStarted \<Rightarrow> set_coro tid Finished w
           | AtRun \<Rightarrow> snd (execute_resume env tid (Thrown CancelledError) w)))"

text \<open>
  \<^verbatim>\<open>cancel_task\<close>: \<^verbatim>\<open>Task.cancel()\<close> only asks for the cancellation, which asyncio
  keeps in the task object; \<^verbatim>\<open>cancel_task\<close> returns with the registries as they
  were, the task still registered, and answers whether a handle was found. The
  delivery is a later step of the event loop (\<open>cancel\<close>).
\<close>

definition cancel_task :: "string \<Rightarrow> world \<Rightarrow> bool \<times> world" where
  "cancel_task tid w = (if running_tasks w tid \<noteq> None then (True, w) else (False, w))"

definition resumption_of :: "outcome \<Rightarrow> resumption" where
  "resumption_of out = (case out of Returns r \<Rightarrow> Returned r | Raises m \<Rightarrow> Thrown (AgentError m))"

text \<open>
  \<^verbatim>\<open>asyncio.wait_for(handle, timeout)\<close>, with what the event loop does to the task
  meanwhile. A timeout that is not positive cancels at once, so a task that has not
  started never does. Otherwise the task takes its first step if it has not yet, and
  the run either ends before the timeout or is cancelled when the timeout expires;
  \<^verbatim>\<open>wait_for\<close> raises \<^verbatim>\<open>TimeoutError\<close> once the cancelled task is over. Waiting for
  a task that was cancelled raises \<^verbatim>\<open>CancelledError\<close>. The first component is the
  exception raised, if any. One caller waits, and nobody else cancels the task
  during the wait; when the run and the timeout end at the same time, the timeout
  wins.
\<close>

definition await_run :: "env \<Rightarrow> string \<Rightarrow> handle \<Rightarrow> nat \<Rightarrow> world \<Rightarrow> py_exn option \<times> world" where
  "await_run env tid h timeout w =
     (if duration (run h) < timeout then execute_resume env tid (resumption_of (outcome (run h))) w
      else (Some TimeoutError, snd (execute_resume env tid (Thrown CancelledError) w)))"

definition wait_for :: "env \<Rightarrow> string \<Rightarrow> handle \<Rightarrow> nat \<Rightarrow> world \<Rightarrow> py_exn option \<times> world" where
  "wait_for env tid h timeout w =
     (case coro h of
        Finished \<Rightarrow> (Some CancelledError, w)
      | NotStarted \<Rightarrow>
          if timeout = 0 then (Some TimeoutError, set_coro tid Finished w)
          else await_run env tid h timeout (execute_begin env tid w)
      | AtRun \<Rightarrow> await_run env tid h timeout w)"

text \<open>The \<^verbatim>\<open>except asyncio.TimeoutError\<close> clause of \<^verbatim>\<open>wait_for_task\<close>. A handle
  still registered at this point is that of a task already over, on which
  \<^verbatim>\<open>cancel()\<close> does nothing.\<close>

definition on_timeout :: "env \<Rightarrow> string \<Rightarrow> nat \<Rightarrow> world \<Rightarrow> world" where
  "on_timeout env tid timeout w =
     (let w1 = (if running_tasks w tid \<noteq> None then cancel env tid w else w)
      in if tasks w1 tid \<noteq> None then
           (let w2 = modify tid (\<lambda>t. t\<lparr>status := FAILED\<rparr>) w1;
                w3 = modify tid
                       (\<lambda>t. t\<lparr>error := Some (''Task timed out after '' @ float_str env timeout @ '' seconds'')\<rparr>) w2
            in case utcnow env w3 of (now, w4) \<Rightarrow>
                 modify tid (\<lambda>t. t\<lparr>completed_at := Some now\<rparr>) w4)
         else w1)"

text \<open>\<^verbatim>\<open>wait_for_task\<close>; \<open>Inl\<close> is an exception that none of its clauses catches.\<close>

definition wait_for_task :: "env \<Rightarrow> string \<Rightarrow> nat \<Rightarrow> world \<Rightarrow> (py_exn + bool) \<times> world" where
  "wait_for_task env tid timeout w =
     (case running_tasks w tid of
        None \<Rightarrow> (Inr True, w)
      | Some h \<Rightarrow>
          (case wait_for env tid h timeout w of
             (None, w') \<Rightarrow> (Inr True, w')
           | (Some e, w') \<Rightarrow>
               if e = TimeoutError then (Inr False, on_timeout env tid timeout w')
               else if is_Exception e then (Inr False, w')
               else (Inl e, w')))"

definition get_task :: "world \<Rightarrow> string \<Rightarrow> task option" where
  "get_task w tid = tasks w tid"

section \<open>Sending a message (main.py)\<close>

text \<open>What a request handler ends with when it does not return: an
  \<^verbatim>\<open>HTTPException\<close> with its status code, or an exception nobody caught.\<close>

datatype http_error = HTTPException nat string | Unhandled py_exn

text \<open>\<^verbatim>\<open>ChatMessage(role=..., content=..., tools_used=..., task_id=...)\<close>; the id and
  the timestamp come from the default factories.\<close>

definition new_chat_message ::
  "env \<Rightarrow> string \<Rightarrow> string \<Rightarrow> string list \<Rightarrow> string option \<Rightarrow> world \<Rightarrow> chat_message \<times> world" where
  "new_chat_message env r c tools tk w =
     (case uuid4 env w of (mid, w1) \<Rightarrow>
      case utcnow env w1 of (now, w2) \<Rightarrow>
        (\<lparr>msg_id = mid, role = r, content = c, timestamp = now,
          msg_tools_used = tools, msg_task_id = tk\<rparr>, w2))"

text \<open>\<^verbatim>\<open>session.messages.append(m)\<close>.\<close>

definition append_message :: "string \<Rightarrow> chat_message \<Rightarrow> world \<Rightarrow> world" where
  "append_message sid m w =
     (case sessions w sid of
        None \<Rightarrow> w
      | Some s \<Rightarrow> w\<lparr>sessions := (sessions w)(sid \<mapsto> s\<lparr>messages := messages s @ [m]\<rparr>)\<rparr>)"

text \<open>The truth value of an optional string, and the string itself.\<close>

definition truthy_str :: "string option \<Rightarrow> bool" where
  "truthy_str v = (case v of None \<Rightarrow> False | Some s \<Rightarrow> s \<noteq> [])"

definition str_of :: "string option \<Rightarrow> string" where
  "str_of v = (case v of None \<Rightarrow> [] | Some s \<Rightarrow> s)"

text \<open>The \<^verbatim>\<open>if\<close>/\<^verbatim>\<open>elif\<close> chain that chooses the content of the reply.\<close>

definition response_content :: "bool \<Rightarrow> task option \<Rightarrow> string" where
  "response_content success completed_task =
     (if \<not> success then ''Task timed out after 2 minutes''
      else
        (case completed_task of
           None \<Rightarrow> ''Agent completed but no response generated''
         | Some t \<Rightarrow>
             if truthy_str (error t) then ''Error: '' @ str_of (error t)
             else if truthy_str (final_response (metadata t)) then str_of (final_response (metadata t))
             else if truthy_str (initial_thinking (metadata t)) then str_of (initial_thinking (metadata t))
             else ''Agent completed but no response generated''))"

text \<open>A broadcast through the \<^verbatim>\<open>WebSocketManager\<close> of \<^verbatim>\<open>main.py\<close>.\<close>

definition main_broadcast :: "string \<Rightarrow> event \<Rightarrow> world \<Rightarrow> world" where
  "main_broadcast sid data w =
     w\<lparr>sockets := snd (broadcast_to_session (main_connections w) sid data (sockets w))\<rparr>"

text \<open>The message made of the tool commands, when tools were used.\<close>

definition send_thinking :: "env \<Rightarrow> string \<Rightarrow> task option \<Rightarrow> string list \<Rightarrow> world \<Rightarrow> world" where
  "send_thinking env sid completed_task tools_used_list w =
     (case completed_task of
        None \<Rightarrow> w
      | Some t \<Rightarrow>
          if tools_used_list \<noteq> [] \<and> tool_commands (metadata t) \<noteq> [] then
            (let thinking_content = join [CHR 0x0A] (map snd (tool_commands (metadata t)))
             in case new_chat_message env ''assistant'' thinking_content [] None w of
                  (thinking_message, w1) \<Rightarrow>
                    main_broadcast sid (MessageAdded thinking_message True)
                      (append_message sid thinking_message w1))
          else w)"

text \<open>\<^verbatim>\<open>send_message\<close>; the timeout of the wait is 120 seconds.\<close>

definition send_message :: "env \<Rightarrow> string \<Rightarrow> string \<Rightarrow> world \<Rightarrow> (http_error + chat_message) \<times> world" where
  "send_message env sid text w =
     (case get_session (sessions w) sid of
        None \<Rightarrow> (Inl (HTTPException 404 ''Session not found''), w)
      | Some session \<Rightarrow>
          (case new_chat_message env ''user'' text [] None w of (user_message, w1) \<Rightarrow>
           case create_task env sid text (agent session) (append_message sid user_message w1) of
             (task, w2) \<Rightarrow>
           case wait_for_task env (task_id task) 120 w2 of
             (Inl e, w3) \<Rightarrow> (Inl (Unhandled e), w3)
           | (Inr success, w3) \<Rightarrow>
               (let completed_task = get_task w3 (task_id task);
                    reply = response_content success completed_task;
                    tools_used_list = (case completed_task of None \<Rightarrow> [] | Some t \<Rightarrow> tools_used t);
                    w4 = send_thinking env sid completed_task tools_used_list w3
                in case new_chat_message env ''assistant'' reply tools_used_list
                          (if tools_used_list \<noteq> [] then map_option task_id completed_task else None) w4 of
                     (assistant_message, w5) \<Rightarrow>
                       (let w6 = main_broadcast sid (MessageAdded assistant_message False)
                                   (append_message sid assistant_message w5)
                        in (Inr assistant_message,
                            (case completed_task of
                               None \<Rightarrow> w6
                             | Some t \<Rightarrow>
                                 if tools_used_list \<noteq> [] then main_broadcast sid (TaskCreated t) w6
                                 else w6))))))"

section \<open>Whole executions and the states they lead to\<close>

text \<open>The statuses in which a task stays.\<close>

definition terminal :: "task_status \<Rightarrow> bool" where
  "terminal s = (s = COMPLETED \<or> s = FAILED \<or> s = CANCELLED)"

text \<open>\<^verbatim>\<open>_execute_task\<close> from its first step to its end, given what resumes it at
  \<^verbatim>\<open>await Runner.run(...)\<close>.\<close>

definition execute_task :: "env \<Rightarrow> string \<Rightarrow> resumption \<Rightarrow> world \<Rightarrow> py_exn option \<times> world" where
  "execute_task env tid d w = execute_resume env tid d (execute_begin env tid w)"

text \<open>The task that a notification carries.\<close>

definition task_of_event :: "event \<Rightarrow> task option" where
  "task_of_event ev = (case ev of TaskUpdate t \<Rightarrow> Some t | TaskCreated t \<Rightarrow> Some t | _ \<Rightarrow> None)"

text \<open>
  The states of the task registries that the operations can produce, starting with no
  task. \<open>elsewhere\<close> is any change outside the two task registries (observers come
  and go, sessions and messages are added, the clock is read). The event loop lets
  a coroutine that has not started take its first step, and resumes one that waits
  for its run with whatever ends the wait: the result of the run, an exception,
  or a cancellation; it delivers a cancellation to any task, in whatever state
  its coroutine is.
\<close>

inductive reachable :: "env \<Rightarrow> world \<Rightarrow> bool" for env :: env where
  initial: "tasks w = Map.empty \<Longrightarrow> running_tasks w = Map.empty \<Longrightarrow> reachable env w"
| elsewhere: "reachable env w \<Longrightarrow> tasks w' = tasks w \<Longrightarrow> running_tasks w' = running_tasks w
              \<Longrightarrow> reachable env w'"
| created: "reachable env w \<Longrightarrow> reachable env (snd (create_task env sid msg ag w))"
| begun: "reachable env w \<Longrightarrow> running_tasks w tid = Some h \<Longrightarrow> coro h = NotStarted
          \<Longrightarrow> reachable env (execute_begin env tid w)"
| resumed: "reachable env w \<Longrightarrow> running_tasks w tid = Some h \<Longrightarrow> coro h = AtRun
            \<Longrightarrow> reachable env (snd (execute_resume env tid d w))"
| waited: "reachable env w \<Longrightarrow> reachable env (snd (wait_for_task env tid timeout w))"
| asked: "reachable env w \<Longrightarrow> reachable env (snd (cancel_task tid w))"
| cancelled: "reachable env w \<Longrightarrow> reachable env (cancel env tid w)"

text \<open>What holds of the task registries in every such state: of each task, and of
  each handle with respect to its task.\<close>

definition task_ok :: "task \<Rightarrow> bool" where
  "task_ok t = ((completed_at t \<noteq> None) = terminal (status t) \<and> distinct (tools_used t))"

definition registries_ok :: "world \<Rightarrow> bool" where
  "registries_ok w =
     ((\<forall>tid t. tasks w tid = Some t \<longrightarrow> task_ok t) \<and>
      (\<forall>tid h. running_tasks w tid = Some h \<longrightarrow>
         (\<exists>t. tasks w tid = Some t \<and> (coro h = NotStarted \<longrightarrow> status t = PENDING))))"

section \<open>Examples\<close>

text \<open>The arguments \<^verbatim>\<open>{"command": "ls"}\<close> of a tool call, as the text that
  \<^verbatim>\<open>json.loads\<close> is given.\<close>

definition ex_ls_arguments :: string where
  "ex_ls_arguments =
     ''{'' @ [CHR 0x22] @ ''command'' @ [CHR 0x22] @ '': '' @ [CHR 0x22] @ ''ls'' @ [CHR 0x22] @ ''}''"

text \<open>An environment, an agent whose run takes five units of time and returns
  nothing, and a world with one session observed by socket 1 through the task
  manager's connections and by socket 2 through those of \<^verbatim>\<open>main.py\<close>; then the
  world with a task created for the message \<^verbatim>\<open>hello\<close>.\<close>

definition ex_env :: env where
  "ex_env =
     \<lparr>utcnow_at = (\<lambda>n. n), uuid4_at = (\<lambda>n. replicate (Suc n) CHR ''u''),
      json_loads = (\<lambda>s. if s = ex_ls_arguments then Some (JObj [(''command'', JStr ''ls'')]) else None),
      py_str = (\<lambda>j. case j of JStr s \<Rightarrow> s | _ \<Rightarrow> []), set_order = remdups,
      float_str = (\<lambda>n. if n = 120 then ''120.0'' else if n = 1 then ''1.0'' else ''0.0'')\<rparr>"

definition ex_agent :: agent where
  "ex_agent = (\<lambda>input. \<lparr>duration = 5, outcome = Returns \<lparr>new_items = [], raw_responses = []\<rparr>\<rparr>)"

definition ex_sockets :: sockets where
  "ex_sockets = \<lparr>dead = (\<lambda>ws. False), received = (\<lambda>ws. [])\<rparr>"

definition ex_world :: world where
  "ex_world =
     \<lparr>sessions = [''s'' \<mapsto> \<lparr>sess_id = ''s'', name = ''n'', agent_type = ''a'', model = ''m'',
                            sess_status = ACTIVE, sess_created_at = 0, updated_at = 0,
                            agent = ex_agent, messages = []\<rparr>],
      tasks = Map.empty, running_tasks = Map.empty,
      connections = [''s'' \<mapsto> [1]], main_connections = [''s'' \<mapsto> [2]],
      sockets = ex_sockets, reads = 0, draws = 0\<rparr>"

definition ex_created :: world where
  "ex_created = snd (create_task ex_env ''s'' ''hello'' ex_agent ex_world)"

text \<open>The world after \<open>ex_created\<close> has been waited for with a timeout of one unit,
  and the state in between, when \<^verbatim>\<open>asyncio.wait_for\<close> has raised.\<close>

definition ex_cancelled :: world where
  "ex_cancelled = snd (wait_for ex_env ''u'' \<lparr>coro = NotStarted, run = ex_agent ''hello''\<rparr> 1 ex_created)"

definition ex_timed_out :: world where
  "ex_timed_out = snd (wait_for_task ex_env ''u'' 1 ex_created)"

text \<open>A run that reports the tool \<^verbatim>\<open>nmap\<close> twice and then a message, and the agent
  that makes it; the world after a message for that agent has been turned into a task
  and waited for.\<close>

definition ex_tool_item :: item where
  "ex_tool_item =
     \<lparr>item_type = Some ''tool_call_item'', tool_name = Some ''nmap'', raw_item = None,
      item_output = None\<rparr>"

definition ex_message_item :: item where
  "ex_message_item =
     \<lparr>item_type = Some ''message_output_item'', tool_name = None,
      raw_item = Some \<lparr>tool_calls = None, raw_name = None,
                        raw_content = Some [WithText ''scan done'']\<rparr>,
      item_output = None\<rparr>"

definition ex_tools_agent :: agent where
  "ex_tools_agent =
     (\<lambda>input. \<lparr>duration = 5,
                outcome = Returns \<lparr>new_items = [ex_tool_item, ex_tool_item, ex_message_item],
                                    raw_responses = []\<rparr>\<rparr>)"

definition ex_tools_done :: world where
  "ex_tools_done =
     snd (wait_for_task ex_env ''u'' 120 (snd (create_task ex_env ''s'' ''scan'' ex_tools_agent ex_world)))"

text \<open>
  A run that calls the tool \<^verbatim>\<open>generic_linux_command\<close> with the arguments
  \<^verbatim>\<open>{"command": "ls"}\<close> and gets the output \<^verbatim>\<open>file1\<close>, \<^verbatim>\<open>file2\<close> on two lines; the
  agent that makes it, and the world after a message for that agent has been turned
  into a task and waited for.
\<close>

definition ex_ls_call_item :: item where
  "ex_ls_call_item =
     \<lparr>item_type = Some ''tool_call_item'', tool_name = None,
      raw_item = Some \<lparr>tool_calls = Some [\<lparr>function_name = ''generic_linux_command'',
                                              function_arguments = ex_ls_arguments\<rparr>],
                        raw_name = None, raw_content = None\<rparr>,
      item_output = None\<rparr>"

definition ex_ls_output_item :: item where
  "ex_ls_output_item =
     \<lparr>item_type = Some ''tool_call_output_item'', tool_name = None, raw_item = None,
      item_output = Some (''file1'' @ [CHR 0x0A] @ ''file2'')\<rparr>"

definition ex_ls_agent :: agent where
  "ex_ls_agent =
     (\<lambda>input. \<lparr>duration = 5,
                outcome = Returns \<lparr>new_items = [ex_ls_call_item, ex_ls_output_item],
                                    raw_responses = []\<rparr>\<rparr>)"

definition ex_ls_done :: world where
  "ex_ls_done =
     snd (wait_for_task ex_env ''u'' 120 (snd (create_task ex_env ''s'' ''list'' ex_ls_agent ex_world)))"

text \<open>
  The world after \<^verbatim>\<open>cancel_task\<close> has been called for the task of \<open>ex_created\<close>,
  whose coroutine has not taken its first step, and the event loop has delivered the
  cancellation; and the world after that task has been waited for with a timeout
  of zero.
\<close>

definition ex_never_started :: world where
  "ex_never_started = cancel ex_env ''u'' (snd (cancel_task ''u'' ex_created))"

definition ex_waited_zero :: world where
  "ex_waited_zero = snd (wait_for_task ex_env ''u'' 0 ex_created)"

text \<open>An agent whose run raises an exception with an empty text, such as
  \<^verbatim>\<open>asyncio.TimeoutError()\<close> or a failed \<^verbatim>\<open>assert\<close>, and a world whose session has it.\<close>

definition ex_failing_agent :: agent where
  "ex_failing_agent = (\<lambda>input. \<lparr>duration = 5, outcome = Raises []\<rparr>)"

definition ex_failing_world :: world where
  "ex_failing_world =
     ex_world\<lparr>sessions := [''s'' \<mapsto> \<lparr>sess_id = ''s'', name = ''n'', agent_type = ''a'', model = ''m'',
                            sess_status = ACTIVE, sess_created_at = 0, updated_at = 0,
                            agent = ex_failing_agent, messages = []\<rparr>]\<rparr>"

section \<open>Properties of the registries\<close>

lemma gather_send_received:
  "snd (gather_return_exceptions (map (\<lambda>ws. send_to_websocket ws data) wss) k) = k'
   \<Longrightarrow> dead k' = dead k \<and>
       received k' w = received k w @ (if dead k w then [] else replicate (count_list wss w) data)"
proof (induction wss arbitrary: k k')
  case Nil
  then show ?case by simp
next
  case (Cons a wss)
  show ?case
  proof (cases "dead k a")
    case True
    then have "send_to_websocket a data k = Inr k"
      by (simp add: send_to_websocket_def send_json_def)
    with Cons.prems have "snd (gather_return_exceptions (map (\<lambda>ws. send_to_websocket ws data) wss) k) = k'"
      by (simp add: split_def Let_def)
    from Cons.IH[OF this] True show ?thesis by auto
  next
    case False
    define k1 where "k1 = k\<lparr>received := (received k)(a := received k a @ [data])\<rparr>"
    from False have s: "send_to_websocket a data k = Inr k1"
      by (simp add: send_to_websocket_def send_json_def k1_def)
    with Cons.prems have "snd (gather_return_exceptions (map (\<lambda>ws. send_to_websocket ws data) wss) k1) = k'"
      by (simp add: split_def Let_def)
    from Cons.IH[OF this] have "dead k' = dead k1"
      and "received k' w = received k1 w @ (if dead k1 w then [] else replicate (count_list wss w) data)"
      by simp_all
    then show ?thesis using False
      by (auto simp: k1_def replicate_append_same)
  qed
qed

lemma gather_send_results:
  "set (fst (gather_return_exceptions (map (\<lambda>ws. send_to_websocket ws data) wss) k)) \<subseteq> {None}"
proof (induction wss arbitrary: k)
  case Nil
  then show ?case by simp
next
  case (Cons a wss)
  obtain k1 where "send_to_websocket a data k = Inr k1"
    by (cases "dead k a") (simp_all add: send_to_websocket_def send_json_def)
  then show ?case using Cons.IH[of k1] by (simp add: split_def Let_def)
qed

lemma broadcast_received:
  "snd (broadcast_to_session conns sid data k) = k'
   \<Longrightarrow> dead k' = dead k \<and>
       received k' w =
         received k w @ (if dead k w then [] else replicate (count_list (observers conns sid) w) data)"
proof (cases "conns sid")
  case None
  then show "snd (broadcast_to_session conns sid data k) = k' \<Longrightarrow> ?thesis"
    by (auto simp: broadcast_to_session_def observers_def)
next
  case (Some wss)
  assume "snd (broadcast_to_session conns sid data k) = k'"
  with Some have "snd (gather_return_exceptions (map (\<lambda>ws. send_to_websocket ws data) wss) k) = k'"
    by (cases wss) (auto simp: broadcast_to_session_def Let_def)
  from gather_send_received[OF this] Some show ?thesis
    by (simp add: observers_def)
qed

lemma broadcast_results:
  "set (fst (broadcast_to_session conns sid data k)) \<subseteq> {None}"
proof (cases "conns sid")
  case None
  then show ?thesis by (simp add: broadcast_to_session_def)
next
  case (Some wss)
  then show ?thesis
    using gather_send_results[of data wss k]
    by (auto simp: broadcast_to_session_def Let_def)
qed

lemma broadcast_no_observers:
  "observers conns sid = [] \<Longrightarrow> broadcast_to_session conns sid data k = ([], k)"
  by (auto simp: broadcast_to_session_def observers_def split: option.splits)

text \<open>
  C6. \<^verbatim>\<open>broadcast_to_session\<close> sends the payload to every observer registered for
  the session: each observer whose connection is alive has the payload appended to
  what it received, once for each time it is registered, whether or not other
  observers of the session are dead. A send that fails is swallowed: the gathered
  results hold no exception, so nothing is raised to the caller. With no observer
  registered for the session nothing changes.
\<close>

theorem broadcast_to_session_delivers:
  "set (fst (broadcast_to_session conns sid data k)) \<subseteq> {None} \<and>
   dead (snd (broadcast_to_session conns sid data k)) = dead k \<and>
   (\<forall>ws. received (snd (broadcast_to_session conns sid data k)) ws =
           received k ws @
             (if dead k ws then [] else replicate (count_list (observers conns sid) ws) data)) \<and>
   (observers conns sid = [] \<longrightarrow> broadcast_to_session conns sid data k = ([], k))"
  using broadcast_results[of conns sid data k]
    broadcast_received[OF refl, of conns sid data k]
    broadcast_no_observers[of conns sid data k]
  by blast

text \<open>Two observers of one session, the first of them dead: the second still gets
  the payload; and a session without observers.\<close>

theorem broadcast_to_session_delivers_witness:
  "received (snd (broadcast_to_session [''s'' \<mapsto> [1, 2]] ''s'' (Connected ''x'')
        \<lparr>dead = (\<lambda>w. w = 1), received = (\<lambda>w. [])\<rparr>)) 2 = [Connected ''x''] \<and>
   received (snd (broadcast_to_session [''s'' \<mapsto> [1, 2]] ''s'' (Connected ''x'')
        \<lparr>dead = (\<lambda>w. w = 1), received = (\<lambda>w. [])\<rparr>)) 1 = [] \<and>
   observers [''s'' \<mapsto> [1, 2]] ''t'' = [] \<and>
   broadcast_to_session [''s'' \<mapsto> [1, 2]] ''t'' (Connected ''x'')
        \<lparr>dead = (\<lambda>w. w = 1), received = (\<lambda>w. [])\<rparr>
     = ([], \<lparr>dead = (\<lambda>w. w = 1), received = (\<lambda>w. [])\<rparr>)"
  using broadcast_to_session_delivers[of "[''s'' \<mapsto> [1, 2]]" "''s''" "Connected ''x''"
      "\<lparr>dead = (\<lambda>w. w = 1), received = (\<lambda>w. [])\<rparr>"]
    broadcast_to_session_delivers[of "[''s'' \<mapsto> [1, 2]]" "''t''" "Connected ''x''"
      "\<lparr>dead = (\<lambda>w. w = 1), received = (\<lambda>w. [])\<rparr>"]
  by (simp add: observers_def)

text \<open>
  C10. \<^verbatim>\<open>disconnect\<close> for a session that has a bucket of observers raises
  (\<^verbatim>\<open>ValueError\<close> from \<^verbatim>\<open>list.remove\<close>) when the handle is not in the bucket;
  for a session without a bucket it does nothing.
\<close>

theorem disconnect_unregistered:
  "(conns sid = Some wss \<longrightarrow> ws \<notin> set wss \<longrightarrow>
      disconnect ws sid conns = Inl (ValueError ''list.remove(x): x not in list'')) \<and>
   (conns sid = None \<longrightarrow> disconnect ws sid conns = Inr conns)"
  by (simp add: disconnect_def list_remove_def)

theorem disconnect_unregistered_witness:
  "[''s'' \<mapsto> [1::nat]] ''s'' = Some [1] \<and> (2::nat) \<notin> set [1] \<and>
   disconnect 2 ''s'' [''s'' \<mapsto> [1]] = Inl (ValueError ''list.remove(x): x not in list'') \<and>
   [''s'' \<mapsto> [1::nat]] ''t'' = None \<and>
   disconnect 2 ''t'' [''s'' \<mapsto> [1]] = Inr [''s'' \<mapsto> [1]]"
  using disconnect_unregistered[of "[''s'' \<mapsto> [1]]" "''s''" "[1]" 2]
    disconnect_unregistered[of "[''s'' \<mapsto> [1]]" "''t''" "[1]" 2]
  by simp

text \<open>
  C7. \<^verbatim>\<open>delete_session\<close> returns true exactly when the session id is registered;
  after it, \<^verbatim>\<open>get_session\<close> on the id finds nothing and a second
  \<^verbatim>\<open>delete_session\<close> on the id returns false.
\<close>

theorem delete_session_idempotent:
  "fst (delete_session sid ss) = (get_session ss sid \<noteq> None) \<and>
   get_session (snd (delete_session sid ss)) sid = None \<and>
   fst (delete_session sid (snd (delete_session sid ss))) = False"
  by (simp add: delete_session_def get_session_def Let_def split: option.splits)

section \<open>Properties of the execution of a task\<close>

lemma modify_fields [simp]:
  "tasks (modify tid f w) tid' = (if tid' = tid then map_option f (tasks w tid) else tasks w tid')"
  "running_tasks (modify tid f w) = running_tasks w"
  "sockets (modify tid f w) = sockets w"
  "connections (modify tid f w) = connections w"
  "main_connections (modify tid f w) = main_connections w"
  "sessions (modify tid f w) = sessions w"
  "reads (modify tid f w) = reads w"
  "draws (modify tid f w) = draws w"
  by (simp_all add: modify_def split: option.splits)

lemma set_coro_fields [simp]:
  "tasks (set_coro tid c w) = tasks w"
  "running_tasks (set_coro tid c w) tid' =
     (if tid' = tid then map_option (\<lambda>h. h\<lparr>coro := c\<rparr>) (running_tasks w tid) else running_tasks w tid')"
  "sockets (set_coro tid c w) = sockets w"
  "connections (set_coro tid c w) = connections w"
  "main_connections (set_coro tid c w) = main_connections w"
  "sessions (set_coro tid c w) = sessions w"
  "reads (set_coro tid c w) = reads w"
  "draws (set_coro tid c w) = draws w"
  by (simp_all add: set_coro_def split: option.splits)

lemma notify_fields [simp]:
  "tasks (notify_task_update tid w) = tasks w"
  "running_tasks (notify_task_update tid w) = running_tasks w"
  "connections (notify_task_update tid w) = connections w"
  "main_connections (notify_task_update tid w) = main_connections w"
  "sessions (notify_task_update tid w) = sessions w"
  "reads (notify_task_update tid w) = reads w"
  "draws (notify_task_update tid w) = draws w"
  by (simp_all add: notify_task_update_def split: option.splits)

lemma execute_begin_fields [simp]:
  "tasks (execute_begin env tid w) tid' =
     (if tid' = tid
      then map_option (\<lambda>t. t\<lparr>status := RUNNING, started_at := Some (utcnow_at env (reads w))\<rparr>) (tasks w tid)
      else tasks w tid')"
  "running_tasks (execute_begin env tid w) tid' =
     (if tid' = tid then map_option (\<lambda>h. h\<lparr>coro := AtRun\<rparr>) (running_tasks w tid) else running_tasks w tid')"
  "connections (execute_begin env tid w) = connections w"
  "main_connections (execute_begin env tid w) = main_connections w"
  "sessions (execute_begin env tid w) = sessions w"
  "reads (execute_begin env tid w) = Suc (reads w)"
  "draws (execute_begin env tid w) = draws w"
  by (simp_all add: execute_begin_def utcnow_def Let_def option.map_comp comp_def)

lemma finalize_fields [simp]:
  "tasks (finalize env tid w) tid' =
     (if tid' = tid
      then map_option (\<lambda>t. t\<lparr>completed_at := Some (utcnow_at env (reads w))\<rparr>) (tasks w tid)
      else tasks w tid')"
  "running_tasks (finalize env tid w) = (running_tasks w)(tid := None)"
  "connections (finalize env tid w) = connections w"
  "main_connections (finalize env tid w) = main_connections w"
  "sessions (finalize env tid w) = sessions w"
  "reads (finalize env tid w) = Suc (reads w)"
  "draws (finalize env tid w) = draws w"
  by (auto simp: finalize_def utcnow_def Let_def)

lemma complete_task_frame:
  assumes "complete_task env tid r w = Inr w'"
  shows "running_tasks w' = running_tasks w" "sockets w' = sockets w"
    "connections w' = connections w" "main_connections w' = main_connections w"
    "sessions w' = sessions w" "draws w' = draws w"
    "tid' \<noteq> tid \<Longrightarrow> tasks w' tid' = tasks w tid'"
    "tasks w tid = None \<Longrightarrow> tasks w' tid = None"
  using assms
  by (auto simp: complete_task_def utcnow_def Let_def split: sum.splits prod.splits if_splits)

lemma complete_task_task:
  assumes "complete_task env tid r w = Inr w'" and "tasks w tid = Some t"
  shows "\<exists>x t'. extract_items env (new_items r) empty_extraction = Inr x \<and>
           tasks w' tid = Some t' \<and> status t' = COMPLETED \<and>
           completed_at t' = Some (utcnow_at env (reads w)) \<and>
           result t' = Some (task_result x (list_of_set env (tools_list x))) \<and>
           tools_used t' = list_of_set env (tools_list x) \<and>
           metadata t' = metadata_of x \<and> error t' = error t \<and>
           started_at t' = started_at t \<and> session_id t' = session_id t \<and>
           task_id t' = task_id t \<and> message t' = message t \<and> created_at t' = created_at t \<and>
           reads w' = Suc (reads w) + length (list_of_set env (tools_list x))"
  using assms
  by (auto simp: complete_task_def utcnow_def Let_def split: sum.splits prod.splits if_splits)

lemma complete_task_Inl:
  "complete_task env tid r w = Inl e \<longleftrightarrow> extract_items env (new_items r) empty_extraction = Inl e"
  by (auto simp: complete_task_def utcnow_def Let_def split: sum.splits prod.splits if_splits)

lemma on_cancelled_fields [simp]:
  "tasks (on_cancelled tid w) tid' =
     (if tid' = tid
      then map_option (\<lambda>t. t\<lparr>status := CANCELLED, error := Some ''Task was cancelled''\<rparr>) (tasks w tid)
      else tasks w tid')"
  "running_tasks (on_cancelled tid w) = running_tasks w"
  "sockets (on_cancelled tid w) = sockets w"
  "connections (on_cancelled tid w) = connections w"
  "main_connections (on_cancelled tid w) = main_connections w"
  "sessions (on_cancelled tid w) = sessions w"
  "reads (on_cancelled tid w) = reads w"
  "draws (on_cancelled tid w) = draws w"
  by (simp_all add: on_cancelled_def Let_def option.map_comp comp_def)

lemma on_exception_fields [simp]:
  "tasks (on_exception env tid e w) tid' =
     (if tid' = tid
      then map_option (\<lambda>t. t\<lparr>status := FAILED, error := Some (str_exn e),
                               logs := logs t @ [ErrorLog e (utcnow_at env (reads w))]\<rparr>) (tasks w tid)
      else tasks w tid')"
  "running_tasks (on_exception env tid e w) = running_tasks w"
  "sockets (on_exception env tid e w) = sockets w"
  "connections (on_exception env tid e w) = connections w"
  "main_connections (on_exception env tid e w) = main_connections w"
  "sessions (on_exception env tid e w) = sessions w"
  "reads (on_exception env tid e w) = Suc (reads w)"
  "draws (on_exception env tid e w) = draws w"
  by (simp_all add: on_exception_def utcnow_def Let_def option.map_comp comp_def)

lemma command_text_exn: "command_text env tname targs = Inl e \<Longrightarrow> e \<noteq> CancelledError"
  by (cases targs; cases "the targs")
     (auto simp: command_text_def split: if_splits sum.splits bool.splits option.splits)

lemma process_item_exn: "process_item env it x = Inl e \<Longrightarrow> e \<noteq> CancelledError"
  by (auto simp: process_item_def on_tool_call_def Let_def dest: command_text_exn
      split: option.splits if_splits prod.splits sum.splits)

lemma extract_items_exn: "extract_items env its x = Inl e \<Longrightarrow> e \<noteq> CancelledError"
  by (induction its arbitrary: x) (auto split: sum.splits dest: process_item_exn)

lemma execute_resume_cancel:
  "execute_resume env tid (Thrown CancelledError) w =
     (Some CancelledError, finalize env tid (on_cancelled tid w))"
  by (simp add: execute_resume_def except_clauses_def)

lemma execute_resume_thrown:
  "e \<noteq> CancelledError \<Longrightarrow>
   execute_resume env tid (Thrown e) w = (None, finalize env tid (on_exception env tid e w))"
  by (cases e) (simp_all add: execute_resume_def except_clauses_def)

lemma execute_resume_returned:
  "complete_task env tid r w = Inr w' \<Longrightarrow>
   execute_resume env tid (Returned r) w = (None, finalize env tid w')"
  by (simp add: execute_resume_def)

lemma execute_resume_extraction_fails:
  "complete_task env tid r w = Inl e \<Longrightarrow>
   execute_resume env tid (Returned r) w = (None, finalize env tid (on_exception env tid e w))"
proof -
  assume a: "complete_task env tid r w = Inl e"
  then have "e \<noteq> CancelledError"
    using extract_items_exn[of env "new_items r" empty_extraction e] complete_task_Inl by blast
  with a show ?thesis
    by (cases e) (simp_all add: execute_resume_def except_clauses_def)
qed

lemma notify_sockets:
  "tasks w tid = Some t \<Longrightarrow>
   sockets (notify_task_update tid w) =
     snd (broadcast_to_session (connections w) (session_id t) (TaskUpdate t) (sockets w))"
  by (simp add: notify_task_update_def)

lemma finalize_effect:
  assumes "tasks w tid = Some t"
  shows "tasks (finalize env tid w) tid = Some (t\<lparr>completed_at := Some (utcnow_at env (reads w))\<rparr>)"
    and "running_tasks (finalize env tid w) tid = None"
    and "dead (sockets (finalize env tid w)) = dead (sockets w)"
    and "received (sockets (finalize env tid w)) ws =
           received (sockets w) ws @
             (if dead (sockets w) ws then []
              else replicate (count_list (observers (connections w) (session_id t)) ws)
                     (TaskUpdate (t\<lparr>completed_at := Some (utcnow_at env (reads w))\<rparr>)))"
proof -
  let ?t' = "t\<lparr>completed_at := Some (utcnow_at env (reads w))\<rparr>"
  show "tasks (finalize env tid w) tid = Some ?t'"
    using assms by simp
  show "running_tasks (finalize env tid w) tid = None"
    by simp
  have s: "sockets (finalize env tid w) =
      snd (broadcast_to_session (connections w) (session_id t) (TaskUpdate ?t') (sockets w))"
    using assms by (auto simp: finalize_def utcnow_def Let_def notify_task_update_def modify_def)
  from broadcast_received[OF s[symmetric]]
  show "dead (sockets (finalize env tid w)) = dead (sockets w)"
    and "received (sockets (finalize env tid w)) ws =
           received (sockets w) ws @
             (if dead (sockets w) ws then []
              else replicate (count_list (observers (connections w) (session_id t)) ws) (TaskUpdate ?t'))"
    by simp_all
qed

lemma execute_resume_shape:
  assumes "tasks w tid = Some t"
  shows "\<exists>w1 t1. snd (execute_resume env tid d w) = finalize env tid w1 \<and>
           tasks w1 tid = Some t1 \<and> terminal (status t1) \<and>
           (d = Thrown CancelledError \<longrightarrow> status t1 = CANCELLED) \<and>
           session_id t1 = session_id t \<and> tools_used t1 \<in> {tools_used t} \<union> range (list_of_set env) \<and>
           sockets w1 = sockets w \<and> connections w1 = connections w \<and>
           running_tasks w1 = running_tasks w \<and>
           (\<forall>tid'. tid' \<noteq> tid \<longrightarrow> tasks w1 tid' = tasks w tid')"
proof (cases d)
  case (Returned r)
  show ?thesis
  proof (cases "complete_task env tid r w")
    case (Inl e)
    show ?thesis
      unfolding Returned execute_resume_extraction_fails[OF Inl]
      by (rule exI[of _ "on_exception env tid e w"]) (simp add: assms terminal_def)
  next
    case (Inr w1)
    from complete_task_task[OF Inr assms] obtain t1 where
      "tasks w1 tid = Some t1" "status t1 = COMPLETED" "session_id t1 = session_id t"
      "tools_used t1 \<in> range (list_of_set env)"
      by auto
    with complete_task_frame[OF Inr] show ?thesis
      unfolding Returned execute_resume_returned[OF Inr]
      by (intro exI[of _ w1] exI[of _ t1]) (simp add: terminal_def)
  qed
next
  case (Thrown e)
  show ?thesis
  proof (cases "e = CancelledError")
    case True
    show ?thesis
      unfolding Thrown True execute_resume_cancel
      by (rule exI[of _ "on_cancelled tid w"]) (simp add: assms terminal_def)
  next
    case False
    show ?thesis
      unfolding Thrown execute_resume_thrown[OF False]
      by (rule exI[of _ "on_exception env tid e w"]) (simp add: assms terminal_def False)
  qed
qed

lemma execute_begin_effect:
  assumes "tasks w tid = Some t"
  shows "dead (sockets (execute_begin env tid w)) = dead (sockets w)"
    and "received (sockets (execute_begin env tid w)) ws =
           received (sockets w) ws @
             (if dead (sockets w) ws then []
              else replicate (count_list (observers (connections w) (session_id t)) ws)
                     (TaskUpdate (t\<lparr>status := RUNNING, started_at := Some (utcnow_at env (reads w))\<rparr>)))"
proof -
  let ?t' = "t\<lparr>status := RUNNING, started_at := Some (utcnow_at env (reads w))\<rparr>"
  have s: "sockets (execute_begin env tid w) =
      snd (broadcast_to_session (connections w) (session_id t) (TaskUpdate ?t') (sockets w))"
    using assms
    by (auto simp: execute_begin_def utcnow_def Let_def notify_task_update_def modify_def set_coro_def
        split: option.splits)
  from broadcast_received[OF s[symmetric]]
  show "dead (sockets (execute_begin env tid w)) = dead (sockets w)"
    and "received (sockets (execute_begin env tid w)) ws =
           received (sockets w) ws @
             (if dead (sockets w) ws then []
              else replicate (count_list (observers (connections w) (session_id t)) ws) (TaskUpdate ?t'))"
    by simp_all
qed

text \<open>
  An execution that has taken its first step, in which no cancellation is delivered
  while a notification is awaited: whatever resumes the coroutine at
  \<^verbatim>\<open>await Runner.run(...)\<close> (the result of the run, an exception of the run, or
  the \<^verbatim>\<open>CancelledError\<close> of a cancellation), it ends with the task in a terminal
  state (\<^verbatim>\<open>cancelled\<close> after a cancellation), \<^verbatim>\<open>completed_at\<close> set and the handle
  removed from \<^verbatim>\<open>running_tasks\<close>; an observer registered with the manager that
  \<^verbatim>\<open>task_manager.py\<close> uses gets, for each of its registrations, the notification of
  the first step and then the one of the \<^verbatim>\<open>finally\<close> block.
\<close>

lemma execute_task_notifications:
  assumes "tasks w tid = Some t"
  shows "\<exists>t0 t'. status t0 = RUNNING \<and> terminal (status t') \<and>
           tasks (snd (execute_task env tid d w)) tid = Some t' \<and>
           (d = Thrown CancelledError \<longrightarrow> status t' = CANCELLED) \<and>
           completed_at t' \<noteq> None \<and>
           running_tasks (snd (execute_task env tid d w)) tid = None \<and>
           (\<forall>ws. received (sockets (snd (execute_task env tid d w))) ws =
                   received (sockets w) ws @
                     (if dead (sockets w) ws then []
                      else replicate (count_list (observers (connections w) (session_id t)) ws) (TaskUpdate t0)
                         @ replicate (count_list (observers (connections w) (session_id t)) ws) (TaskUpdate t')))"
proof -
  let ?w0 = "execute_begin env tid w"
  let ?t0 = "t\<lparr>status := RUNNING, started_at := Some (utcnow_at env (reads w))\<rparr>"
  have t0: "tasks ?w0 tid = Some ?t0"
    using assms by simp
  from execute_resume_shape[OF t0, of env d] obtain w1 t1 where
    w1: "snd (execute_resume env tid d ?w0) = finalize env tid w1"
    and t1: "tasks w1 tid = Some t1" "terminal (status t1)"
      "d = Thrown CancelledError \<longrightarrow> status t1 = CANCELLED" "session_id t1 = session_id ?t0"
    and fr: "sockets w1 = sockets ?w0" "connections w1 = connections ?w0"
    by blast
  let ?t' = "t1\<lparr>completed_at := Some (utcnow_at env (reads w1))\<rparr>"
  have "received (sockets (snd (execute_task env tid d w))) ws =
          received (sockets w) ws @
            (if dead (sockets w) ws then []
             else replicate (count_list (observers (connections w) (session_id t)) ws) (TaskUpdate ?t0)
                @ replicate (count_list (observers (connections w) (session_id t)) ws) (TaskUpdate ?t'))" for ws
    using finalize_effect(4)[OF t1(1), of env ws] execute_begin_effect[OF assms, of env] t1(4) fr
    by (simp add: execute_task_def w1)
  moreover have "tasks (snd (execute_task env tid d w)) tid = Some ?t'"
    "running_tasks (snd (execute_task env tid d w)) tid = None"
    using finalize_effect(1,2)[OF t1(1), of env] by (simp_all add: execute_task_def w1)
  ultimately show ?thesis
    using t1(2,3)
    by (intro exI[of _ ?t0] exI[of _ ?t']) simp
qed

lemma ex_created_fields:
  "tasks ex_created ''u'' = Some (new_task ''u'' ''s'' ''hello'' 0)"
  "running_tasks ex_created ''u'' = Some \<lparr>coro = NotStarted, run = ex_agent ''hello''\<rparr>"
  "connections ex_created = [''s'' \<mapsto> [1]]"
  "sockets ex_created = ex_sockets"
  "reads ex_created = 1"
  by (simp_all add: ex_created_def create_task_def uuid4_def utcnow_def ex_env_def ex_world_def
      new_task_def Let_def)

text \<open>
  A task notification goes through the manager that \<^verbatim>\<open>task_manager.py\<close> imports.
  While no observer is registered with it for the session of the task (\<^verbatim>\<open>main.py\<close>
  registers its observers with a manager of its own), the notification changes
  nothing.
\<close>

lemma notify_without_observers:
  "observers (connections w) sid = [] \<Longrightarrow> tasks w tid = Some t \<Longrightarrow> session_id t = sid \<Longrightarrow>
   sockets (notify_task_update tid w) = sockets w"
  by (simp add: notify_task_update_def broadcast_no_observers)

text \<open>
  C3 fails for a task that is cancelled before its coroutine has taken its first
  step, as when \<^verbatim>\<open>cancel_task\<close> follows \<^verbatim>\<open>create_task\<close> at once: \<^verbatim>\<open>cancel_task\<close>
  answers true, and when the event loop delivers the cancellation the body of
  \<^verbatim>\<open>_execute_task\<close> is never entered, so neither \<^verbatim>\<open>except asyncio.CancelledError\<close>
  nor \<^verbatim>\<open>finally\<close> runs. The task stays \<^verbatim>\<open>pending\<close> without \<^verbatim>\<open>completed_at\<close>, its
  handle stays in \<^verbatim>\<open>running_tasks\<close>, and the observer of its session is sent nothing.
  The same task waited for with a timeout of zero is marked \<^verbatim>\<open>failed\<close> by
  \<^verbatim>\<open>wait_for_task\<close>, and again no notification is sent.
\<close>

theorem cancel_before_first_step_skips_finalization:
  "fst (cancel_task ''u'' ex_created) = True \<and>
   map_option status (tasks ex_never_started ''u'') = Some PENDING \<and>
   map_option completed_at (tasks ex_never_started ''u'') = Some None \<and>
   map_option coro (running_tasks ex_never_started ''u'') = Some Finished \<and>
   observers (connections ex_never_started) ''s'' = [1] \<and>
   length (received (sockets ex_never_started) 1) = 0 \<and>
   map_option status (tasks ex_waited_zero ''u'') = Some FAILED \<and>
   map_option coro (running_tasks ex_waited_zero ''u'') = Some Finished \<and>
   length (received (sockets ex_waited_zero) 1) = 0"
  by code_simp

lemma on_timeout_task:
  assumes "tasks w tid = Some t"
    and "running_tasks w tid = None \<or> (\<exists>h. running_tasks w tid = Some h \<and> coro h = Finished)"
  shows "tasks (on_timeout env tid timeout w) tid =
           Some (t\<lparr>status := FAILED,
                   error := Some (''Task timed out after '' @ float_str env timeout @ '' seconds''),
                   completed_at := Some (utcnow_at env (reads w))\<rparr>)"
    and "tid' \<noteq> tid \<Longrightarrow> tasks (on_timeout env tid timeout w) tid' = tasks w tid'"
    and "running_tasks (on_timeout env tid timeout w) = running_tasks w"
  using assms
  by (auto simp: on_timeout_def cancel_def utcnow_def Let_def)

lemma wait_for_task_times_out:
  assumes "running_tasks w tid = Some h" and "coro h \<noteq> Finished" and "tasks w tid = Some t"
    and "\<not> duration (run h) < timeout"
  shows "\<exists>w' t'. wait_for_task env tid timeout w = (Inr False, w') \<and> tasks w' tid = Some t' \<and>
           status t' = FAILED \<and>
           error t' = Some (''Task timed out after '' @ float_str env timeout @ '' seconds'') \<and>
           completed_at t' \<noteq> None"
proof (cases "coro h = NotStarted \<and> timeout = 0")
  case True
  let ?w1 = "set_coro tid Finished w"
  have "wait_for_task env tid timeout w = (Inr False, on_timeout env tid timeout ?w1)"
    using assms True by (simp add: wait_for_task_def wait_for_def)
  moreover have "tasks ?w1 tid = Some t"
    "running_tasks ?w1 tid = None \<or> (\<exists>h. running_tasks ?w1 tid = Some h \<and> coro h = Finished)"
    using assms by simp_all
  ultimately show ?thesis
    using on_timeout_task(1)[of ?w1 tid t env timeout] by simp
next
  case False
  define w0 where "w0 = (if coro h = NotStarted then execute_begin env tid w else w)"
  define w1 where "w1 = finalize env tid (on_cancelled tid w0)"
  have "wait_for env tid h timeout w = (Some TimeoutError, w1)"
    using assms False
    by (cases "coro h") (simp_all add: wait_for_def await_run_def execute_resume_cancel w0_def w1_def)
  then have "wait_for_task env tid timeout w = (Inr False, on_timeout env tid timeout w1)"
    using assms by (simp add: wait_for_task_def)
  moreover have "\<exists>t1. tasks w1 tid = Some t1" and "running_tasks w1 tid = None"
    using assms by (simp_all add: w1_def w0_def)
  ultimately show ?thesis
    using on_timeout_task(1)[of w1 tid _ env timeout] by auto
qed

lemma wait_for_task_completes:
  assumes "running_tasks w tid = Some h" and "coro h \<noteq> Finished" and "tasks w tid = Some t"
    and "duration (run h) < timeout"
  shows "\<exists>w' t'. wait_for_task env tid timeout w = (Inr True, w') \<and> tasks w' tid = Some t' \<and>
           completed_at t' \<noteq> None \<and>
           ((status t' = COMPLETED \<and> error t' = error t) \<or>
            (\<exists>e n. status t' = FAILED \<and> error t' = Some (str_exn e) \<and>
                   logs t' = logs t @ [ErrorLog e n]))"
proof -
  define w0 where "w0 = (if coro h = NotStarted then execute_begin env tid w else w)"
  define d where "d = resumption_of (outcome (run h))"
  have wf: "wait_for env tid h timeout w = execute_resume env tid d w0"
    using assms by (cases "coro h") (simp_all add: wait_for_def await_run_def w0_def d_def)
  have "\<exists>t0. tasks w0 tid = Some t0 \<and> error t0 = error t \<and> logs t0 = logs t"
    using assms by (simp add: w0_def)
  then obtain t0 where t0: "tasks w0 tid = Some t0" "error t0 = error t" "logs t0 = logs t"
    by blast
  have "\<exists>w1 t1. execute_resume env tid d w0 = (None, finalize env tid w1) \<and> tasks w1 tid = Some t1 \<and>
          ((status t1 = COMPLETED \<and> error t1 = error t) \<or>
           (\<exists>e n. status t1 = FAILED \<and> error t1 = Some (str_exn e) \<and> logs t1 = logs t @ [ErrorLog e n]))"
  proof (cases "outcome (run h)")
    case (Returns r)
    then have d: "d = Returned r" by (simp add: d_def resumption_of_def)
    show ?thesis
    proof (cases "complete_task env tid r w0")
      case (Inl e)
      show ?thesis
        unfolding d execute_resume_extraction_fails[OF Inl]
        using t0 by (intro exI[of _ "on_exception env tid e w0"]) auto
    next
      case (Inr w1)
      from complete_task_task[OF Inr t0(1)] t0 show ?thesis
        unfolding d execute_resume_returned[OF Inr] by auto
    qed
  next
    case (Raises m)
    then have d: "d = Thrown (AgentError m)" by (simp add: d_def resumption_of_def)
    show ?thesis
      unfolding d using t0
      by (intro exI[of _ "on_exception env tid (AgentError m) w0"])
         (auto simp: execute_resume_thrown)
  qed
  then obtain w1 t1 where r: "execute_resume env tid d w0 = (None, finalize env tid w1)"
    and t1: "tasks w1 tid = Some t1"
      "(status t1 = COMPLETED \<and> error t1 = error t) \<or>
       (\<exists>e n. status t1 = FAILED \<and> error t1 = Some (str_exn e) \<and> logs t1 = logs t @ [ErrorLog e n])"
    by blast
  have "wait_for_task env tid timeout w = (Inr True, finalize env tid w1)"
    using assms(1) by (simp add: wait_for_task_def wf r)
  then show ?thesis
    using t1 by (intro exI[of _ "finalize env tid w1"]) auto
qed

text \<open>
  C1. A task in flight (its handle is in \<^verbatim>\<open>running_tasks\<close> and its coroutine is not
  over) whose run takes longer than the timeout: \<^verbatim>\<open>wait_for_task\<close> returns false and
  leaves the task \<^verbatim>\<open>failed\<close>, with the timeout error and \<^verbatim>\<open>completed_at\<close> set. With
  a timeout longer than the run it returns true, and the task is as its execution
  left it: \<^verbatim>\<open>completed\<close> with its error field untouched, or \<^verbatim>\<open>failed\<close> with the text
  of the exception that ended the execution, which is logged; \<^verbatim>\<open>completed_at\<close> is set.
\<close>

theorem wait_for_task_timeout:
  assumes "running_tasks w tid = Some h" and "coro h \<noteq> Finished" and "tasks w tid = Some t"
  shows "(timeout < duration (run h) \<longrightarrow>
            (\<exists>w' t'. wait_for_task env tid timeout w = (Inr False, w') \<and> tasks w' tid = Some t' \<and>
               status t' = FAILED \<and>
               error t' = Some (''Task timed out after '' @ float_str env timeout @ '' seconds'') \<and>
               completed_at t' \<noteq> None)) \<and>
         (duration (run h) < timeout \<longrightarrow>
            (\<exists>w' t'. wait_for_task env tid timeout w = (Inr True, w') \<and> tasks w' tid = Some t' \<and>
               completed_at t' \<noteq> None \<and>
               ((status t' = COMPLETED \<and> error t' = error t) \<or>
                (\<exists>e n. status t' = FAILED \<and> error t' = Some (str_exn e) \<and>
                       logs t' = logs t @ [ErrorLog e n]))))"
  using wait_for_task_times_out[OF assms, of timeout env] wait_for_task_completes[OF assms, of timeout env]
  by (simp add: not_less_iff_gr_or_eq)

theorem wait_for_task_timeout_witness:
  "running_tasks ex_created ''u'' = Some \<lparr>coro = NotStarted, run = ex_agent ''hello''\<rparr> \<and>
   NotStarted \<noteq> Finished \<and>
   tasks ex_created ''u'' = Some (new_task ''u'' ''s'' ''hello'' 0) \<and>
   1 < duration (ex_agent ''hello'') \<and>
   (\<exists>w' t'. wait_for_task ex_env ''u'' 1 ex_created = (Inr False, w') \<and> tasks w' ''u'' = Some t' \<and>
      status t' = FAILED \<and> error t' = Some ''Task timed out after 1.0 seconds'' \<and>
      completed_at t' \<noteq> None) \<and>
   duration (ex_agent ''hello'') < 120 \<and>
   (\<exists>w' t'. wait_for_task ex_env ''u'' 120 ex_created = (Inr True, w') \<and> tasks w' ''u'' = Some t' \<and>
      completed_at t' \<noteq> None \<and>
      ((status t' = COMPLETED \<and> error t' = None) \<or>
       (\<exists>e n. status t' = FAILED \<and> error t' = Some (str_exn e) \<and> logs t' = [ErrorLog e n])))"
  using wait_for_task_timeout[OF ex_created_fields(2) _ ex_created_fields(1), of 1 ex_env]
    wait_for_task_timeout[OF ex_created_fields(2) _ ex_created_fields(1), of 120 ex_env]
  by (simp add: ex_created_fields ex_agent_def ex_env_def new_task_def)

text \<open>
  C5 as the code has it. \<^verbatim>\<open>create_task\<close> stores the task in \<^verbatim>\<open>pending\<close>, registers
  a handle whose coroutine has not started, and returns the task still in
  \<^verbatim>\<open>pending\<close>; the change to \<^verbatim>\<open>running\<close> is the first step of the coroutine.
\<close>

theorem create_task_returns_pending:
  "status (fst (create_task env sid msg ag w)) = PENDING \<and>
   tasks (snd (create_task env sid msg ag w)) (task_id (fst (create_task env sid msg ag w)))
     = Some (fst (create_task env sid msg ag w)) \<and>
   map_option coro
     (running_tasks (snd (create_task env sid msg ag w)) (task_id (fst (create_task env sid msg ag w))))
     = Some NotStarted \<and>
   map_option status
     (tasks (execute_begin env (task_id (fst (create_task env sid msg ag w)))
              (snd (create_task env sid msg ag w)))
        (task_id (fst (create_task env sid msg ag w))))
     = Some RUNNING"
  by (simp add: create_task_def uuid4_def utcnow_def Let_def new_task_def)

text \<open>C5 as stated fails: the task that \<^verbatim>\<open>create_task\<close> returns is in \<^verbatim>\<open>pending\<close>,
  not in \<^verbatim>\<open>running\<close>.\<close>

theorem create_task_running_counterexample:
  "status (fst (create_task ex_env ''s'' ''hello'' ex_agent ex_world)) = PENDING \<and>
   status (fst (create_task ex_env ''s'' ''hello'' ex_agent ex_world)) \<noteq> RUNNING"
  by (simp add: create_task_def uuid4_def utcnow_def Let_def new_task_def)

section \<open>Invariants of the task registries\<close>

lemma distinct_list_of_set: "distinct (list_of_set env xs)"
  by (simp add: list_of_set_def Let_def)

lemma registries_okI:
  assumes "\<And>tid t. tasks w tid = Some t \<Longrightarrow> task_ok t"
    and "\<And>tid h. running_tasks w tid = Some h \<Longrightarrow>
           \<exists>t. tasks w tid = Some t \<and> (coro h = NotStarted \<longrightarrow> status t = PENDING)"
  shows "registries_ok w"
  using assms unfolding registries_ok_def by blast

lemma registries_ok_task: "registries_ok w \<Longrightarrow> tasks w tid = Some t \<Longrightarrow> task_ok t"
  unfolding registries_ok_def by blast

lemma registries_ok_handle:
  "registries_ok w \<Longrightarrow> running_tasks w tid = Some h \<Longrightarrow>
   \<exists>t. tasks w tid = Some t \<and> (coro h = NotStarted \<longrightarrow> status t = PENDING)"
  unfolding registries_ok_def by blast

lemma ok_execute_begin:
  assumes ok: "registries_ok w" and h: "running_tasks w tid = Some h" "coro h = NotStarted"
  shows "registries_ok (execute_begin env tid w)"
proof (rule registries_okI)
  from registries_ok_handle[OF ok h(1)] h(2) obtain t where
    t: "tasks w tid = Some t" "status t = PENDING"
    by blast
  from registries_ok_task[OF ok t(1)] t(2) have t_ok: "completed_at t = None" "distinct (tools_used t)"
    by (auto simp: task_ok_def terminal_def)
  fix tid' t'
  assume "tasks (execute_begin env tid w) tid' = Some t'"
  then show "task_ok t'"
    using t t_ok registries_ok_task[OF ok, of tid' t']
    by (auto simp: task_ok_def terminal_def split: if_splits)
next
  fix tid' h'
  assume "running_tasks (execute_begin env tid w) tid' = Some h'"
  then show "\<exists>t. tasks (execute_begin env tid w) tid' = Some t \<and>
                 (coro h' = NotStarted \<longrightarrow> status t = PENDING)"
    using registries_ok_handle[OF ok, of tid'] registries_ok_handle[OF ok h(1)]
    by (auto split: if_splits)
qed

lemma ok_execute_resume:
  assumes ok: "registries_ok w" and "running_tasks w tid \<noteq> None"
  shows "registries_ok (snd (execute_resume env tid d w))"
proof -
  from assms obtain h where "running_tasks w tid = Some h"
    by blast
  from registries_ok_handle[OF ok this] obtain t where t: "tasks w tid = Some t"
    by blast
  from execute_resume_shape[OF t, of env d] obtain w1 t1 where
    w1: "snd (execute_resume env tid d w) = finalize env tid w1"
    and t1: "tasks w1 tid = Some t1" "terminal (status t1)"
      "tools_used t1 \<in> {tools_used t} \<union> range (list_of_set env)"
    and fr: "running_tasks w1 = running_tasks w" "\<forall>tid'. tid' \<noteq> tid \<longrightarrow> tasks w1 tid' = tasks w tid'"
    by blast
  from t1(3) registries_ok_task[OF ok t] have d: "distinct (tools_used t1)"
    by (auto simp: task_ok_def distinct_list_of_set)
  show ?thesis
    unfolding w1
  proof (rule registries_okI)
    fix tid' t'
    assume "tasks (finalize env tid w1) tid' = Some t'"
    then show "task_ok t'"
      using t1 d fr(2) registries_ok_task[OF ok, of tid' t']
      by (auto simp: task_ok_def split: if_splits)
  next
    fix tid' h'
    assume "running_tasks (finalize env tid w1) tid' = Some h'"
    then show "\<exists>t. tasks (finalize env tid w1) tid' = Some t \<and>
                   (coro h' = NotStarted \<longrightarrow> status t = PENDING)"
      using fr registries_ok_handle[OF ok, of tid' h']
      by (auto split: if_splits)
  qed
qed

lemma ok_set_coro_Finished:
  assumes ok: "registries_ok w"
  shows "registries_ok (set_coro tid Finished w)"
proof (rule registries_okI)
  fix tid' t'
  assume "tasks (set_coro tid Finished w) tid' = Some t'"
  then show "task_ok t'"
    using registries_ok_task[OF ok, of tid' t'] by simp
next
  fix tid' h'
  assume "running_tasks (set_coro tid Finished w) tid' = Some h'"
  then show "\<exists>t. tasks (set_coro tid Finished w) tid' = Some t \<and>
                 (coro h' = NotStarted \<longrightarrow> status t = PENDING)"
    using registries_ok_handle[OF ok, of tid']
    by (auto split: if_splits)
qed

lemma ok_cancel: "registries_ok w \<Longrightarrow> registries_ok (cancel env tid w)"
  by (auto simp: cancel_def ok_set_coro_Finished ok_execute_resume
      split: option.splits coro_state.splits)

lemma cancel_not_NotStarted:
  "running_tasks (cancel env tid w) tid = Some h \<Longrightarrow> coro h \<noteq> NotStarted"
  by (auto simp: cancel_def execute_resume_cancel split: option.splits coro_state.splits if_splits)

lemma ok_mark_failed:
  assumes ok: "registries_ok w"
    and h: "\<And>h. running_tasks w tid = Some h \<Longrightarrow> coro h \<noteq> NotStarted"
  shows "registries_ok
           (modify tid (\<lambda>t. t\<lparr>status := FAILED, error := e, completed_at := Some n\<rparr>) w)"
proof (rule registries_okI)
  fix tid' t'
  assume "tasks (modify tid (\<lambda>t. t\<lparr>status := FAILED, error := e, completed_at := Some n\<rparr>) w) tid' = Some t'"
  then show "task_ok t'"
    using registries_ok_task[OF ok, of tid'] 
    by (auto simp: task_ok_def terminal_def split: if_splits)
next
  fix tid' h'
  assume "running_tasks (modify tid (\<lambda>t. t\<lparr>status := FAILED, error := e, completed_at := Some n\<rparr>) w) tid' = Some h'"
  then show "\<exists>t. tasks (modify tid (\<lambda>t. t\<lparr>status := FAILED, error := e, completed_at := Some n\<rparr>) w) tid' = Some t \<and>
                 (coro h' = NotStarted \<longrightarrow> status t = PENDING)"
    using registries_ok_handle[OF ok, of tid' h'] h
    by (auto split: if_splits)
qed

lemma on_timeout_alt:
  "on_timeout env tid timeout w =
     (let w1 = (if running_tasks w tid \<noteq> None then cancel env tid w else w)
      in (modify tid
            (\<lambda>t. t\<lparr>status := FAILED,
                    error := Some (''Task timed out after '' @ float_str env timeout @ '' seconds''),
                    completed_at := Some (utcnow_at env (reads w1))\<rparr>) w1)
           \<lparr>reads := (if tasks w1 tid \<noteq> None then Suc (reads w1) else reads w1)\<rparr>)"
  by (auto simp: on_timeout_def Let_def utcnow_def modify_def split: option.splits)

lemma ok_reads: "registries_ok (w\<lparr>reads := n\<rparr>) = registries_ok w"
  by (simp add: registries_ok_def)

lemma ok_on_timeout:
  assumes "registries_ok w"
    and "\<And>h. running_tasks w tid = Some h \<Longrightarrow> coro h \<noteq> NotStarted"
  shows "registries_ok (on_timeout env tid timeout w)"
  unfolding on_timeout_alt Let_def ok_reads
proof (rule ok_mark_failed)
  show "registries_ok (if running_tasks w tid \<noteq> None then cancel env tid w else w)"
    using assms(1) by (simp add: ok_cancel)
  fix h
  assume "running_tasks (if running_tasks w tid \<noteq> None then cancel env tid w else w) tid = Some h"
  then show "coro h \<noteq> NotStarted"
    using assms(2) cancel_not_NotStarted[of env tid w h] by (auto split: if_splits)
qed

lemma ok_await_run:
  assumes "registries_ok w" and "running_tasks w tid \<noteq> None"
  shows "registries_ok (snd (await_run env tid h timeout w))"
  using assms by (simp add: await_run_def ok_execute_resume)

lemma ok_wait_for:
  assumes "registries_ok w" and "running_tasks w tid = Some h"
  shows "registries_ok (snd (wait_for env tid h timeout w))"
  using assms
  by (cases "coro h")
     (auto simp: wait_for_def ok_set_coro_Finished intro!: ok_await_run ok_execute_begin)

lemma wait_for_not_NotStarted:
  assumes "running_tasks w tid = Some h"
    and "running_tasks (snd (wait_for env tid h timeout w)) tid = Some h'"
  shows "coro h' \<noteq> NotStarted \<or> fst (wait_for env tid h timeout w) = Some CancelledError"
  using assms
  by (cases "coro h")
     (auto simp: wait_for_def await_run_def execute_resume_cancel execute_resume_def
        except_clauses_def split: if_splits resumption.splits sum.splits)

lemma ok_wait_for_task:
  assumes ok: "registries_ok w"
  shows "registries_ok (snd (wait_for_task env tid timeout w))"
proof (cases "running_tasks w tid")
  case None
  then show ?thesis using ok by (simp add: wait_for_task_def)
next
  case (Some h)
  obtain ex w' where wf: "wait_for env tid h timeout w = (ex, w')"
    by (cases "wait_for env tid h timeout w")
  have ok': "registries_ok w'"
    using ok_wait_for[OF ok Some, of env timeout] wf by simp
  show ?thesis
  proof (cases "ex = Some TimeoutError")
    case True
    have "registries_ok (on_timeout env tid timeout w')"
    proof (rule ok_on_timeout[OF ok'])
      fix h'
      assume "running_tasks w' tid = Some h'"
      then show "coro h' \<noteq> NotStarted"
        using wait_for_not_NotStarted[OF Some, of env timeout h'] wf True by simp
    qed
    then show ?thesis
      using Some wf True by (simp add: wait_for_task_def)
  next
    case False
    then show ?thesis
      using Some wf ok' by (auto simp: wait_for_task_def split: option.splits)
  qed
qed

lemma ok_create_task: "registries_ok w \<Longrightarrow> registries_ok (snd (create_task env sid msg ag w))"
  unfolding registries_ok_def
  by (auto simp: create_task_def uuid4_def utcnow_def Let_def new_task_def task_ok_def terminal_def)

lemma reachable_ok: "reachable env w \<Longrightarrow> registries_ok w"
proof (induction rule: reachable.induct)
  case (initial w)
  then show ?case by (simp add: registries_ok_def)
next
  case (elsewhere w w')
  then show ?case by (simp add: registries_ok_def)
next
  case (created w sid msg ag)
  then show ?case by (simp add: ok_create_task)
next
  case (begun w tid h)
  then show ?case by (simp add: ok_execute_begin)
next
  case (resumed w tid h d)
  then show ?case by (simp add: ok_execute_resume)
next
  case (waited w tid timeout)
  then show ?case by (simp add: ok_wait_for_task)
next
  case (asked w tid)
  then show ?case by (simp add: cancel_task_def)
next
  case (cancelled w tid)
  then show ?case by (simp add: ok_cancel)
qed

lemma ex_created_reachable: "reachable ex_env ex_created"
  unfolding ex_created_def
  by (rule reachable.created, rule reachable.initial) (simp_all add: ex_world_def)

lemma ex_timed_out_reachable: "reachable ex_env ex_timed_out"
  unfolding ex_timed_out_def
  by (rule reachable.waited) (rule ex_created_reachable)

lemma ex_tools_done_reachable: "reachable ex_env ex_tools_done"
  unfolding ex_tools_done_def
  by (rule reachable.waited, rule reachable.created, rule reachable.initial)
     (simp_all add: ex_world_def)

text \<open>
  C9. In every state that the operations can produce, the \<^verbatim>\<open>tools_used\<close> of every
  task has no duplicates: it is empty until a run succeeds, and then it is
  \<^verbatim>\<open>list(set(...))\<close> of the names that the run reported.
\<close>

theorem tools_used_distinct:
  assumes "reachable env w" and "tasks w tid = Some t"
  shows "distinct (tools_used t)"
  using registries_ok_task[OF reachable_ok[OF assms(1)] assms(2)]
  by (simp add: task_ok_def)

text \<open>The run of \<open>ex_tools_agent\<close> reports \<^verbatim>\<open>nmap\<close> twice.\<close>

theorem tools_used_distinct_witness:
  "reachable ex_env ex_tools_done \<and>
   (\<exists>t. tasks ex_tools_done ''u'' = Some t \<and> tools_used t = [''nmap''] \<and> distinct (tools_used t))"
proof -
  have "map_option tools_used (tasks ex_tools_done ''u'') = Some [''nmap'']"
    by code_simp
  then obtain t where t: "tasks ex_tools_done ''u'' = Some t" "tools_used t = [''nmap'']"
    by auto
  from tools_used_distinct[OF ex_tools_done_reachable t(1)] t ex_tools_done_reachable
  show ?thesis by blast
qed

text \<open>
  C2 as the code has it. In every state that the operations can produce,
  \<^verbatim>\<open>completed_at\<close> of a task is set if and only if its status is \<^verbatim>\<open>completed\<close>,
  \<^verbatim>\<open>failed\<close> or \<^verbatim>\<open>cancelled\<close>. (It can be assigned more than once: see the
  counterexample.)
\<close>

theorem completed_at_iff_terminal:
  assumes "reachable env w" and "tasks w tid = Some t"
  shows "(completed_at t \<noteq> None) = (status t = COMPLETED \<or> status t = FAILED \<or> status t = CANCELLED)"
  using registries_ok_task[OF reachable_ok[OF assms(1)] assms(2)]
  by (simp add: task_ok_def terminal_def)

theorem completed_at_iff_terminal_witness:
  "reachable ex_env ex_timed_out \<and>
   (\<exists>t. tasks ex_timed_out ''u'' = Some t \<and> status t = FAILED \<and> completed_at t \<noteq> None)"
proof -
  have "map_option status (tasks ex_timed_out ''u'') = Some FAILED"
    by code_simp
  then obtain t where t: "tasks ex_timed_out ''u'' = Some t" "status t = FAILED"
    by auto
  from completed_at_iff_terminal[OF ex_timed_out_reachable t(1)] t ex_timed_out_reachable
  show ?thesis by blast
qed

text \<open>
  C2 as stated fails: \<^verbatim>\<open>completed_at\<close> is assigned again after it has been set. When
  the wait for \<open>ex_created\<close> times out, the cancelled execution sets it (to the
  reading 2 of the clock) and broadcasts it to observer 1 with status
  \<^verbatim>\<open>cancelled\<close>; the \<^verbatim>\<open>except\<close> clause of \<^verbatim>\<open>wait_for_task\<close> then assigns it again
  (the reading 3).
\<close>

theorem completed_at_reassigned_counterexample:
  "map_option completed_at (tasks ex_cancelled ''u'') = Some (Some 2) \<and>
   map (map_option completed_at \<circ> task_of_event) (received (sockets ex_cancelled) 1)
     = [Some None, Some (Some 2)] \<and>
   ex_timed_out = on_timeout ex_env ''u'' 1 ex_cancelled \<and>
   map_option completed_at (tasks ex_timed_out ''u'') = Some (Some 3)"
proof -
  have "map_option completed_at (tasks ex_cancelled ''u'') = Some (Some 2)"
    by code_simp
  moreover have "map (map_option completed_at \<circ> task_of_event) (received (sockets ex_cancelled) 1)
     = [Some None, Some (Some 2)]"
    by code_simp
  moreover have "ex_timed_out = on_timeout ex_env ''u'' 1 ex_cancelled"
    by (simp add: ex_timed_out_def ex_cancelled_def wait_for_task_def ex_created_fields
        wait_for_def await_run_def ex_agent_def)
  moreover have "map_option completed_at (tasks ex_timed_out ''u'') = Some (Some 3)"
    by code_simp
  ultimately show ?thesis by blast
qed

section \<open>The result of a task\<close>

lemma str_contains_sublist: "str_contains sub s = sublist sub s"
  by (induction s) (auto simp: sublist_Cons_right)

lemma tool_call_output_is_tool_call:
  assumes "str_contains ''tool_call_output'' s"
  shows "str_contains ''tool_call'' s"
proof -
  have "prefix ''tool_call'' ''tool_call_output''"
    by simp
  then have "sublist ''tool_call'' ''tool_call_output''"
    by (rule prefix_imp_sublist)
  with assms show ?thesis
    unfolding str_contains_sublist by (blast intro: sublist_order.order_trans)
qed

lemma process_item_outputs: "process_item env it x = Inr x' \<Longrightarrow> outputs x' = outputs x"
  using tool_call_output_is_tool_call[of "lower (the (item_type it))"]
  by (auto simp: process_item_def on_tool_call_def on_message_def Let_def
      split: option.splits if_splits prod.splits sum.splits list.splits)

text \<open>
  The test for \<^verbatim>\<open>tool_call_output\<close> comes after the test for \<^verbatim>\<open>tool_call\<close>, which
  every type that contains \<^verbatim>\<open>tool_call_output\<close> passes: the loop never stores a tool
  output.
\<close>

lemma extract_items_outputs: "extract_items env its x = Inr x' \<Longrightarrow> outputs x' = outputs x"
proof (induction its arbitrary: x)
  case Nil
  then show ?case by simp
next
  case (Cons it its)
  then show ?case
    by (auto split: sum.splits dest: process_item_outputs)
qed

lemma complete_task_total:
  "extract_items env (new_items r) empty_extraction = Inr x \<Longrightarrow> \<exists>w1. complete_task env tid r w = Inr w1"
  by (simp add: complete_task_def utcnow_def Let_def split: prod.splits)

text \<open>
  What a run that has returned leaves, when the loop over its items has gone
  through: the task is \<^verbatim>\<open>completed\<close>, no tool output is stored, and the result is
  \<^verbatim>\<open>Executed tools: \<close> with the names in \<^verbatim>\<open>tools_used\<close> if there is any; else
  the final message, or the initial message when there is no final one; else
  \<^verbatim>\<open>Task completed\<close>.
\<close>

lemma task_result_of_run:
  assumes "tasks w tid = Some t"
    and "extract_items env (new_items r) empty_extraction = Inr x"
  shows "\<exists>t'. tasks (snd (execute_resume env tid (Returned r) w)) tid = Some t' \<and>
           status t' = COMPLETED \<and>
           tools_used t' = list_of_set env (tools_list x) \<and>
           tool_outputs (metadata t') = [] \<and>
           result t' =
             Some (if tools_used t' \<noteq> [] then ''Executed tools: '' @ join '', '' (tools_used t')
                   else if final_message x \<noteq> [] then final_message x
                   else if initial_message x \<noteq> [] then initial_message x
                   else ''Task completed'')"
proof -
  from extract_items_outputs[OF assms(2)] have no_outputs: "outputs x = []"
    by (simp add: empty_extraction_def)
  from complete_task_total[OF assms(2)] obtain w1 where w1: "complete_task env tid r w = Inr w1"
    by blast
  from complete_task_task[OF w1 assms(1)] assms(2) obtain t1 where
    t1: "tasks w1 tid = Some t1" "status t1 = COMPLETED"
      "tools_used t1 = list_of_set env (tools_list x)"
      "result t1 = Some (task_result x (list_of_set env (tools_list x)))"
      "metadata t1 = metadata_of x"
    by auto
  let ?t' = "t1\<lparr>completed_at := Some (utcnow_at env (reads w1))\<rparr>"
  have "tasks (snd (execute_resume env tid (Returned r) w)) tid = Some ?t'"
    using t1(1) by (simp add: execute_resume_returned[OF w1])
  then show ?thesis
    using t1 no_outputs
    by (intro exI[of _ ?t']) (simp add: task_result_def metadata_of_def Let_def)
qed

text \<open>
  C4 fails in its first case. A run of one call of \<^verbatim>\<open>generic_linux_command\<close>
  followed by its output \<^verbatim>\<open>file1\<close>, \<^verbatim>\<open>file2\<close>: the item of type
  \<^verbatim>\<open>tool_call_output_item\<close> passes the test for \<^verbatim>\<open>tool_call\<close>, which comes first, so
  the branch that stores tool outputs is not taken. The task is \<^verbatim>\<open>completed\<close> with
  no tool output stored, and its result is \<^verbatim>\<open>Executed tools: generic_linux_command\<close>
  where the priority asks for the output of the tool.
\<close>

theorem tool_outputs_never_primary_result:
  "map_option status (tasks ex_ls_done ''u'') = Some COMPLETED \<and>
   map_option tools_used (tasks ex_ls_done ''u'') = Some [''generic_linux_command''] \<and>
   map_option (tool_outputs \<circ> metadata) (tasks ex_ls_done ''u'') = Some [] \<and>
   map_option result (tasks ex_ls_done ''u'') = Some (Some ''Executed tools: generic_linux_command'') \<and>
   map_option result (tasks ex_ls_done ''u'') \<noteq> Some (Some (''file1'' @ [CHR 0x0A] @ ''file2''))"
  by code_simp

section \<open>The reply to a message\<close>

text \<open>
  C8 fails for a run that raises an exception whose text is empty. The task is
  \<^verbatim>\<open>failed\<close> with the error \<^verbatim>\<open>""\<close>, which the test \<^verbatim>\<open>completed_task.error\<close> takes
  for no error: the reply is the placeholder for a run without response, not a text
  that starts with \<^verbatim>\<open>Error: \<close>.
\<close>

theorem send_message_empty_error:
  "map_sum id content (fst (send_message ex_env ''s'' ''hi'' ex_failing_world))
     = Inr ''Agent completed but no response generated'' \<and>
   map_option status (tasks (snd (send_message ex_env ''s'' ''hi'' ex_failing_world)) ''uu'')
     = Some FAILED \<and>
   map_option error (tasks (snd (send_message ex_env ''s'' ''hi'' ex_failing_world)) ''uu'')
     = Some (Some [])"
  by code_simp

lemma create_task_registers:
  assumes "create_task env sid msg ag w = (task, w')"
  shows "tasks w' (task_id task) = Some task"
    and "\<exists>h. running_tasks w' (task_id task) = Some h \<and> coro h = NotStarted"
  using assms
  by (auto simp: create_task_def uuid4_def utcnow_def Let_def new_task_def)

lemma wait_for_task_returns:
  assumes "running_tasks w tid = Some h" and "coro h \<noteq> Finished" and "tasks w tid = Some t"
  shows "\<exists>b w'. wait_for_task env tid timeout w = (Inr b, w')"
  using wait_for_task_times_out[OF assms, of timeout env] wait_for_task_completes[OF assms, of timeout env]
  by (cases "duration (run h) < timeout") blast+

text \<open>
  What holds of every message sent to an existing session, as long as nobody else
  cancels its task meanwhile: the handler returns an assistant message whose content
  is chosen by \<open>response_content\<close>.
\<close>

lemma send_message_reply:
  assumes "sessions w sid = Some s"
  shows "\<exists>m w' success completed_task.
           send_message env sid text w = (Inr m, w') \<and> role m = ''assistant'' \<and>
           content m = response_content success completed_task"
proof -
  obtain user_message w1 where um: "new_chat_message env ''user'' text [] None w = (user_message, w1)"
    by (cases "new_chat_message env ''user'' text [] None w")
  obtain task w2 where ct: "create_task env sid text (agent s) (append_message sid user_message w1) = (task, w2)"
    by (cases "create_task env sid text (agent s) (append_message sid user_message w1)")
  from create_task_registers[OF ct]
  obtain h where h: "running_tasks w2 (task_id task) = Some h" "coro h = NotStarted"
    "tasks w2 (task_id task) = Some task"
    by auto
  from wait_for_task_returns[OF h(1) _ h(3), of env 120] h(2)
  obtain success w3 where wf: "wait_for_task env (task_id task) 120 w2 = (Inr success, w3)"
    by auto
  show ?thesis
    using assms um ct wf
    by (auto simp: send_message_def get_session_def Let_def new_chat_message_def uuid4_def utcnow_def
        split: prod.splits)
qed

end
